theory Spec2Isabelle
  imports Complex_Main
begin

section \<open>The program and its embedding\<close>

text \<open>
  The development follows \<^verbatim>\<open>crew_availability_constraints.cpp\<close>. The program is one
  \<^verbatim>\<open>main\<close> function; each definition below embeds the block of lines named in the
  text before it and keeps the variable names of that block.

  Conventions of the embedding:
  \<^item> \<^verbatim>\<open>std::string\<close> is \<open>string\<close>; \<^verbatim>\<open>std::vector\<close> is a list;
  \<^item> a C++ exception or an undefined operation is a value of type \<open>error\<close>, and every
    block returns \<open>error + 'a\<close>. For an undefined operation \<open>Inl\<close> marks the point from
    which the C++ standard leaves the behaviour open: the model says nothing about what a
    particular compiler and machine do from there on;
  \<^item> \<^verbatim>\<open>int\<close> is \<open>int\<close> (no count of the program comes near the 32-bit range);
  \<^item> \<^verbatim>\<open>float\<close> and \<^verbatim>\<open>double\<close> values are exact real numbers: the rounding of binary
    floating point is not part of the model, and the cast \<^verbatim>\<open>(int) x\<close> is truncation
    toward zero. The examples that contradict a statement of the specification use
    percentages of 0, 50, 75 and 100 and small counts, so that every value the program
    computes on them is a multiple of a quarter and exact in binary floating point.
\<close>

datatype error =
    OutOfRange          \<comment> \<open>\<^verbatim>\<open>std::out_of_range\<close> thrown by \<^verbatim>\<open>substr\<close>\<close>
  | IndexOutOfBounds    \<comment> \<open>\<^verbatim>\<open>operator[]\<close> of a vector past its size\<close>
  | ModuloByZero        \<comment> \<open>\<^verbatim>\<open>rand() % 0\<close>\<close>
  | DivisionByZero      \<comment> \<open>a floating-point division by zero: the quotient, an infinity or
                            a NaN, is cast to \<^verbatim>\<open>int\<close> later on, which is undefined\<close>
  | UninitialisedRead   \<comment> \<open>the value of a local variable that was never assigned is read\<close>

section \<open>The schedule parser\<close>

subsection \<open>String operations of the standard library\<close>

text \<open>\<^verbatim>\<open>s.substr(pos, n)\<close> and \<^verbatim>\<open>s.substr(pos)\<close>: they throw when \<open>pos\<close> is past the end.\<close>

definition substr :: "string \<Rightarrow> nat \<Rightarrow> nat \<Rightarrow> error + string" where
  "substr s pos n = (if length s < pos then Inl OutOfRange else Inr (take n (drop pos s)))"

definition substr_from :: "string \<Rightarrow> nat \<Rightarrow> error + string" where
  "substr_from s pos = (if length s < pos then Inl OutOfRange else Inr (drop pos s))"

text \<open>\<^verbatim>\<open>s.find(c)\<close>: the position of the first occurrence, \<open>None\<close> for \<^verbatim>\<open>npos\<close>.\<close>

fun find_first :: "char \<Rightarrow> string \<Rightarrow> nat option" where
  "find_first c [] = None"
| "find_first c (x # xs) = (if x = c then Some 0 else map_option Suc (find_first c xs))"

text \<open>
  Lines 231 to 233, \<^verbatim>\<open>int taskDay; convert >> taskDay;\<close> on a string stream. The stream
  first skips white space. When nothing is left, the extraction stops there and assigns
  nothing: \<^verbatim>\<open>taskDay\<close> keeps no value of its own, and line 235 reads an uninitialised
  variable. Otherwise a sign is optional and decimal digits follow; when no digit is
  there the extraction fails and stores 0 (the rule since C++11).
\<close>

definition isspace :: "char \<Rightarrow> bool" where
  "isspace c = (c = CHR '' '' \<or> (9 \<le> (of_char c :: nat) \<and> (of_char c :: nat) \<le> 13))"

definition isdigit :: "char \<Rightarrow> bool" where
  "isdigit c = (48 \<le> (of_char c :: nat) \<and> (of_char c :: nat) \<le> 57)"

fun digits_value :: "int \<Rightarrow> string \<Rightarrow> int" where
  "digits_value acc [] = acc"
| "digits_value acc (c # cs) = digits_value (acc * 10 + (int (of_char c) - 48)) cs"

definition extract_int :: "string \<Rightarrow> error + int" where
  "extract_int s =
     (case dropWhile isspace s of
        [] \<Rightarrow> Inl UninitialisedRead
      | c # cs \<Rightarrow>
          (let neg = (c = CHR ''-'');
               s2 = (if c = CHR ''-'' \<or> c = CHR ''+'' then cs else c # cs);
               ds = takeWhile isdigit s2
           in if ds = [] then Inr 0
              else if neg then Inr (- digits_value 0 ds)
              else Inr (digits_value 0 ds)))"

subsection \<open>One task of a schedule (lines 225 to 239)\<close>

type_synonym duty_matrix = "int list list"

text \<open>
  Lines 225 to 233. A task equal to \<^verbatim>\<open>VACATION\<close>, or starting with \<^verbatim>\<open>POST\<close> or
  \<^verbatim>\<open>TDH\<close>, is not an airleg: \<open>None\<close>. Otherwise a task starting with \<^verbatim>\<open>PAL\<close> loses
  its first four characters, and the day is read from the two characters at offset 4
  (fewer when the task ends there).
\<close>

definition task_day :: "string \<Rightarrow> error + int option" where
  "task_day task =
     (if task \<noteq> ''VACATION'' \<and> take 4 task \<noteq> ''POST'' \<and> take 3 task \<noteq> ''TDH'' then
        (case (if take 3 task = ''PAL'' then substr_from task 4 else Inr task) of
           Inl e \<Rightarrow> Inl e
         | Inr t \<Rightarrow>
             (case substr t 4 2 of
                Inl e \<Rightarrow> Inl e
              | Inr code \<Rightarrow>
                  (case extract_int code of
                     Inl e \<Rightarrow> Inl e
                   | Inr taskDay \<Rightarrow> Inr (Some taskDay))))
      else Inr None)"

text \<open>
  Line 237, \<^verbatim>\<open>initialDutiesPerBasePerDay[baseIndex][taskDay-1]++\<close>. The vectors are not
  range checked in C++; the model reports an index past the end.
\<close>

definition add_duty :: "duty_matrix \<Rightarrow> nat \<Rightarrow> int \<Rightarrow> error + duty_matrix" where
  "add_duty m baseIndex taskDay =
     (if baseIndex < length m \<and> 1 \<le> taskDay \<and> nat (taskDay - 1) < length (m ! baseIndex) then
        Inr (m[baseIndex := (m ! baseIndex)[nat (taskDay - 1) :=
               m ! baseIndex ! nat (taskDay - 1) + 1]])
      else Inl IndexOutOfBounds)"

text \<open>
  Lines 225 to 239 for one task: the state is the current \<open>day\<close> of the employee and
  the matrix of duty counts.
\<close>

definition step_task :: "nat \<Rightarrow> string \<Rightarrow> int \<times> duty_matrix \<Rightarrow> error + int \<times> duty_matrix" where
  "step_task baseIndex task st =
     (case task_day task of
        Inl e \<Rightarrow> Inl e
      | Inr None \<Rightarrow> Inr st
      | Inr (Some taskDay) \<Rightarrow>
          (if fst st < taskDay then
             (case add_duty (snd st) baseIndex taskDay of
                Inl e \<Rightarrow> Inl e
              | Inr m \<Rightarrow> Inr (taskDay, m))
           else Inr st))"

subsection \<open>The tasks of one employee (lines 210 to 240)\<close>

text \<open>
  The loop \<^verbatim>\<open>while(next)\<close>: a task ends at the first \<^verbatim>\<open>-\<close>, and the four characters
  of the separator are dropped; the last task loses its final character.
\<close>

function count_duties :: "nat \<Rightarrow> string \<Rightarrow> int \<times> duty_matrix \<Rightarrow> error + int \<times> duty_matrix" where
  "count_duties baseIndex schedule st =
     (case find_first CHR ''-'' schedule of
        Some pos \<Rightarrow>
          (if length schedule < pos + 4 then Inl OutOfRange
           else
             (case step_task baseIndex (take pos schedule) st of
                Inl e \<Rightarrow> Inl e
              | Inr st' \<Rightarrow> count_duties baseIndex (drop (pos + 4) schedule) st'))
      | None \<Rightarrow> step_task baseIndex (take (length schedule - 1) schedule) st)"
  by pat_completeness auto
termination
  by (relation "measure (\<lambda>(b, schedule, st). length schedule)") auto

declare count_duties.simps [simp del]

text \<open>
  The notation of a schedule (comment of lines 150 to 159): the tasks separated by
  \<^verbatim>\<open>--->\<close>, the last one followed by \<^verbatim>\<open>;\<close>.
\<close>

fun join_tasks :: "string list \<Rightarrow> string" where
  "join_tasks [] = '';''"
| "join_tasks [t] = t @ '';''"
| "join_tasks (t # ts) = t @ ''--->'' @ join_tasks ts"

subsection \<open>The events of the specification\<close>

text \<open>
  The parser of the specification: with a running \<open>maxDaySeen\<close>, a duty event is emitted
  for a day only when the day exceeds \<open>maxDaySeen\<close>, which then becomes that day.
\<close>

fun spec_events :: "int \<Rightarrow> int list \<Rightarrow> int list" where
  "spec_events maxDaySeen [] = []"
| "spec_events maxDaySeen (d # ds) =
     (if maxDaySeen < d then d # spec_events d ds else spec_events maxDaySeen ds)"

text \<open>The aggregator of the specification: one more duty for each event.\<close>

fun spec_aggregate :: "nat \<Rightarrow> int list \<Rightarrow> duty_matrix \<Rightarrow> error + duty_matrix" where
  "spec_aggregate baseIndex [] m = Inr m"
| "spec_aggregate baseIndex (d # ds) m =
     (case add_duty m baseIndex d of
        Inl e \<Rightarrow> Inl e
      | Inr m' \<Rightarrow> spec_aggregate baseIndex ds m')"

subsection \<open>The tasks as a list\<close>

text \<open>
  The same loop over the tasks already cut out of the schedule; the tokenizer lemmas
  below relate it to \<open>count_duties\<close>.
\<close>

fun run_tasks :: "nat \<Rightarrow> string list \<Rightarrow> int \<times> duty_matrix \<Rightarrow> error + int \<times> duty_matrix" where
  "run_tasks baseIndex [] st = Inr st"
| "run_tasks baseIndex (t # ts) st =
     (case step_task baseIndex t st of
        Inl e \<Rightarrow> Inl e
      | Inr st' \<Rightarrow> run_tasks baseIndex ts st')"

text \<open>The days of the airlegs among classified tasks (\<open>None\<close>: not an airleg).\<close>

fun days_of :: "int option list \<Rightarrow> int list" where
  "days_of [] = []"
| "days_of (None # ds) = days_of ds"
| "days_of (Some d # ds) = d # days_of ds"

section \<open>The slack apportionment\<close>

text \<open>The cast \<^verbatim>\<open>(int) x\<close> of a floating-point value: truncation toward zero.\<close>

definition trunc :: "real \<Rightarrow> int" where
  "trunc x = (if 0 \<le> x then \<lfloor>x\<rfloor> else \<lceil>x\<rceil>)"

subsection \<open>First output: the availability of each day, with slack (lines 248 to 340)\<close>

text \<open>
  Lines 278 to 284. \<open>dutiesPerBasePerDay\<close> holds the number of duties with slack of
  every base (first index) and day (second index); the two sums of a day are taken over
  the bases.
\<close>

definition scaled_duties :: "real \<Rightarrow> nat \<Rightarrow> duty_matrix \<Rightarrow> real list list" where
  "scaled_duties percentSlack numDays initialDutiesPerBasePerDay =
     map (\<lambda>row. map (\<lambda>j. 1 * real_of_int (row ! j) * (1 + percentSlack / 100)) [0..<numDays])
       initialDutiesPerBasePerDay"

definition sumDutiesPerDay :: "real list list \<Rightarrow> nat \<Rightarrow> real" where
  "sumDutiesPerDay dutiesPerBasePerDay j = sum_list (map (\<lambda>row. row ! j) dutiesPerBasePerDay)"

definition sumRoundedDownDutiesPerDay :: "real list list \<Rightarrow> nat \<Rightarrow> int" where
  "sumRoundedDownDutiesPerDay dutiesPerBasePerDay j =
     sum_list (map (\<lambda>row. trunc (row ! j)) dutiesPerBasePerDay)"

text \<open>
  Lines 288 to 307: the number of bases to round up on day \<open>j\<close>. \<open>sumD\<close> and \<open>sumRD\<close>
  are the two vectors of sums, filled before any rounding.
\<close>

definition numberRoundUp ::
  "duty_matrix \<Rightarrow> real list list \<Rightarrow> real list \<Rightarrow> int list \<Rightarrow> nat \<Rightarrow> int" where
  "numberRoundUp initialDutiesPerBasePerDay dutiesPerBasePerDay sumD sumRD j =
     (let n = (trunc (sumD ! j) + 1) - sumRD ! j in
      if n = 0 then
        (if list_ex (\<lambda>i. initialDutiesPerBasePerDay ! i ! j < trunc (dutiesPerBasePerDay ! i ! j))
              [0..<length initialDutiesPerBasePerDay]
         then n else 1)
      else n)"

text \<open>
  Lines 313 to 335: the scan over the bases \<open>k\<close> that collects the indexes with the
  highest decimal part; the state is \<open>(indexHighestDecimal, highestDecimal)\<close>.
\<close>

fun highest_decimals :: "real list \<Rightarrow> nat \<Rightarrow> nat list \<times> real \<Rightarrow> nat list \<times> real" where
  "highest_decimals [] k st = st"
| "highest_decimals (x # xs) k (indexHighestDecimal, highestDecimal) =
     (if x - real_of_int (trunc x) > highestDecimal then
        highest_decimals xs (Suc k) ([k], x - real_of_int (trunc x))
      else if x - real_of_int (trunc x) - highestDecimal < 1 / 100000
              \<and> x - real_of_int (trunc x) - highestDecimal > - (1 / 100000) then
        highest_decimals xs (Suc k) (indexHighestDecimal @ [k], highestDecimal)
      else highest_decimals xs (Suc k) (indexHighestDecimal, highestDecimal))"

text \<open>
  Lines 313 to 338, one round: the scan, the random choice and the rounding up of the
  chosen base. \<open>rand\<close> is the stream of values of \<^verbatim>\<open>rand()\<close> and the second component
  of the state counts the calls made so far.
\<close>

definition round_one ::
  "(nat \<Rightarrow> nat) \<Rightarrow> nat \<Rightarrow> real list list \<times> nat \<Rightarrow> error + real list list \<times> nat" where
  "round_one rand j st =
     (let d = fst st;
          indexHighestDecimal = fst (highest_decimals (map (\<lambda>row. row ! j) d) 0 ([], 0))
      in if indexHighestDecimal = [] then Inl ModuloByZero
         else
           (let b = indexHighestDecimal ! (rand (snd st) mod length indexHighestDecimal)
            in Inr (d[b := (d ! b)[j := real_of_int (trunc (d ! b ! j) + 1)]], Suc (snd st))))"

text \<open>Line 311: the loop \<^verbatim>\<open>for(int i = 0 ; i<numberRoundUp ; i++)\<close>.\<close>

fun round_up ::
  "nat \<Rightarrow> (nat \<Rightarrow> nat) \<Rightarrow> nat \<Rightarrow> real list list \<times> nat \<Rightarrow> error + real list list \<times> nat" where
  "round_up 0 rand j st = Inr st"
| "round_up (Suc n) rand j st =
     (case round_one rand j st of
        Inl e \<Rightarrow> Inl e
      | Inr st' \<Rightarrow> round_up n rand j st')"

text \<open>Lines 286 to 340: the loop over the days.\<close>

fun round_days ::
  "nat list \<Rightarrow> duty_matrix \<Rightarrow> real list \<Rightarrow> int list \<Rightarrow> (nat \<Rightarrow> nat) \<Rightarrow>
     real list list \<times> nat \<Rightarrow> error + real list list \<times> nat" where
  "round_days [] init sumD sumRD rand st = Inr st"
| "round_days (j # js) init sumD sumRD rand st =
     (case round_up (nat (numberRoundUp init (fst st) sumD sumRD j)) rand j st of
        Inl e \<Rightarrow> Inl e
      | Inr st' \<Rightarrow> round_days js init sumD sumRD rand st')"

text \<open>Lines 257 to 340 together.\<close>

definition mode_A ::
  "real \<Rightarrow> nat \<Rightarrow> duty_matrix \<Rightarrow> (nat \<Rightarrow> nat) \<Rightarrow> nat \<Rightarrow> error + real list list \<times> nat" where
  "mode_A percentSlack numDays init rand calls =
     (let d = scaled_duties percentSlack numDays init;
          sumD = map (sumDutiesPerDay d) [0..<numDays];
          sumRD = map (sumRoundedDownDutiesPerDay d) [0..<numDays]
      in round_days [0..<numDays] init sumD sumRD rand (d, calls))"

text \<open>
  Lines 399 to 414: the rows of the table, one per day, each with the value
  \<^verbatim>\<open>(int) dutiesPerBasePerDay[j][i]\<close> of every base.
\<close>

definition table_A :: "nat \<Rightarrow> real list list \<Rightarrow> int list list" where
  "table_A numDays d = map (\<lambda>i. map (\<lambda>j. trunc (d ! j ! i)) [0..<length d]) [0..<numDays]"

subsection \<open>Second output: the average over the period (lines 419 to 497)\<close>

text \<open>Lines 436 to 439: the duties of a base over the period.\<close>

definition period_sum :: "nat \<Rightarrow> int list \<Rightarrow> int" where
  "period_sum numDays row = sum_list (map (\<lambda>j. row ! j) [0..<numDays])"

text \<open>
  Lines 433 to 443: the main base is the first base with the largest sum; the state is
  \<open>(mainBaseIndex, mainBaseAvailability)\<close>, which starts at \<open>(-1, 0)\<close>.
\<close>

fun main_base :: "int list \<Rightarrow> nat \<Rightarrow> int \<times> int \<Rightarrow> int \<times> int" where
  "main_base [] i st = st"
| "main_base (sum_i # periodSums) i (mainBaseIndex, mainBaseAvailability) =
     (if sum_i > mainBaseAvailability then main_base periodSums (Suc i) (int i, sum_i)
      else main_base periodSums (Suc i) (mainBaseIndex, mainBaseAvailability))"

text \<open>
  Lines 445 and 446: the sum of the averages with slack. With no day in the period the
  division is by zero.
\<close>

definition sum_averages :: "real \<Rightarrow> nat \<Rightarrow> int list \<Rightarrow> error + real" where
  "sum_averages percentSlack numDays periodSums =
     (if numDays = 0 \<and> periodSums \<noteq> [] then Inl DivisionByZero
      else Inr (sum_list (map (\<lambda>sum_i. 1 * real_of_int sum_i / real numDays * (1 + percentSlack / 100))
                  periodSums)))"

text \<open>
  Lines 451 to 458: the average of base \<open>i\<close> after the availability is distributed; the
  divisor of the other bases is \<^verbatim>\<open>baseNames.size()-1\<close>. With one base that is not the
  main base the divisor is 0: the quotient is an infinity or a NaN on a machine with
  IEEE arithmetic, and lines 473 and 495 cast it to \<^verbatim>\<open>int\<close>, which C++ leaves undefined.
  The model stops there and says nothing about the table such a run may write.
\<close>

definition target_average :: "real \<Rightarrow> real \<Rightarrow> nat \<Rightarrow> int \<Rightarrow> nat \<Rightarrow> error + real" where
  "target_average sumAverages percentMainBase nb mainBaseIndex i =
     (if int i = mainBaseIndex then Inr (sumAverages * percentMainBase / 100)
      else if nb - 1 = 0 then Inl DivisionByZero
      else Inr (sumAverages * (1 - percentMainBase / 100) / real (nb - 1)))"

fun collect :: "(error + 'a) list \<Rightarrow> error + 'a list" where
  "collect [] = Inr []"
| "collect (Inl e # rs) = Inl e"
| "collect (Inr x # rs) = (case collect rs of Inl e \<Rightarrow> Inl e | Inr xs \<Rightarrow> Inr (x # xs))"

definition distribute :: "real \<Rightarrow> real \<Rightarrow> nat \<Rightarrow> int \<Rightarrow> error + real list" where
  "distribute sumAverages percentMainBase nb mainBaseIndex =
     collect (map (target_average sumAverages percentMainBase nb mainBaseIndex) [0..<nb])"

text \<open>
  Lines 478 to 487: the scan for the base with the best decimal part; the state is
  \<open>(index, decimal)\<close>, which starts at \<open>(0, 0)\<close>.
\<close>

fun best_decimal :: "real list \<Rightarrow> nat \<Rightarrow> nat \<times> real \<Rightarrow> nat \<times> real" where
  "best_decimal [] j st = st"
| "best_decimal (a # as) j (index, decimal) =
     (if a - real_of_int (trunc a) \<ge> decimal then
        best_decimal as (Suc j) (j, a - real_of_int (trunc a))
      else best_decimal as (Suc j) (index, decimal))"

text \<open>Lines 478 to 489: one round. \<^verbatim>\<open>averages[index]\<close> is not range checked in C++.\<close>

definition round_best :: "real list \<Rightarrow> error + real list" where
  "round_best averages =
     (let index = fst (best_decimal averages 0 (0, 0))
      in if index < length averages then
           Inr (averages[index := real_of_int (trunc (averages ! index) + 1)])
         else Inl IndexOutOfBounds)"

text \<open>Line 477: the loop \<^verbatim>\<open>for(int i = 0 ; i< numberRoundedUp ; i++)\<close>.\<close>

fun round_up_best :: "nat \<Rightarrow> real list \<Rightarrow> error + real list" where
  "round_up_best 0 averages = Inr averages"
| "round_up_best (Suc n) averages =
     (case round_best averages of
        Inl e \<Rightarrow> Inl e
      | Inr averages' \<Rightarrow> round_up_best n averages')"

text \<open>
  Lines 427 to 497 together: the sums of the bases, the main base, the distribution, the
  number of averages to round up (lines 462 to 474), the rounding, and the final
  truncation of every average (lines 494 to 497).
\<close>

definition mode_B :: "real \<Rightarrow> real \<Rightarrow> nat \<Rightarrow> duty_matrix \<Rightarrow> error + real list" where
  "mode_B percentSlack percentMainBase numDays init =
     (let periodSums = map (period_sum numDays) init;
          mainBaseIndex = fst (main_base periodSums 0 (-1, 0))
      in case sum_averages percentSlack numDays periodSums of
           Inl e \<Rightarrow> Inl e
         | Inr sumAverages \<Rightarrow>
             (case distribute sumAverages percentMainBase (length init) mainBaseIndex of
                Inl e \<Rightarrow> Inl e
              | Inr averages \<Rightarrow>
                  (let roundedSumAverages = trunc (sumAverages + 1);
                       numberRoundedUp = roundedSumAverages - sum_list (map trunc averages)
                   in case round_up_best (nat numberRoundedUp) averages of
                        Inl e \<Rightarrow> Inl e
                      | Inr averages' \<Rightarrow> Inr (map (\<lambda>a. real_of_int (trunc a)) averages'))))"

text \<open>
  Lines 537 to 550: the rows of the table, one per day, each with \<^verbatim>\<open>averages[j]\<close> of
  every base \<open>j\<close>.
\<close>

definition table_B :: "nat \<Rightarrow> nat \<Rightarrow> real list \<Rightarrow> real list list" where
  "table_B numDays nb averages = map (\<lambda>i. map (\<lambda>j. averages ! j) [0..<nb]) [0..<numDays]"

subsection \<open>Invariants of the rounding\<close>

text \<open>
  The matrices of the program have one row per base and \<open>numDays\<close> entries per row
  (lines 128 to 135 and 266 to 272); the counts are not negative. \<open>column j d\<close> is day
  \<open>j\<close> over the bases, \<open>raise b j d\<close> is the assignment of line 338 to base \<open>b\<close>, and
  \<open>rounded numDays N d d'\<close> relates a matrix to a later one: on every day \<open>j\<close> the
  truncated values went up by \<open>N j\<close> in total, and none went down.
\<close>

definition wf_matrix :: "nat \<Rightarrow> 'a list list \<Rightarrow> bool" where
  "wf_matrix numDays d = (\<forall>row\<in>set d. length row = numDays)"

definition nonneg_matrix :: "real list list \<Rightarrow> bool" where
  "nonneg_matrix d = (\<forall>row\<in>set d. \<forall>x\<in>set row. 0 \<le> x)"

definition column :: "nat \<Rightarrow> 'a list list \<Rightarrow> 'a list" where
  "column j d = map (\<lambda>row. row ! j) d"

definition raise :: "nat \<Rightarrow> nat \<Rightarrow> real list list \<Rightarrow> real list list" where
  "raise b j d = d[b := (d ! b)[j := real_of_int (trunc (d ! b ! j) + 1)]]"

definition rounded :: "nat \<Rightarrow> (nat \<Rightarrow> nat) \<Rightarrow> real list list \<Rightarrow> real list list \<Rightarrow> bool" where
  "rounded numDays N d d' =
     (wf_matrix numDays d' \<and> nonneg_matrix d' \<and> length d' = length d
      \<and> (\<forall>j<numDays. sum_list (map trunc (column j d')) =
            sum_list (map trunc (column j d)) + int (N j))
      \<and> (\<forall>j<numDays. list_all2 (\<lambda>x y. trunc x \<le> trunc y) (column j d) (column j d')))"

subsection \<open>The target of the specification\<close>

text \<open>
  Section 4.3 of the specification, step 2 of the first mode, for the counts \<open>raw\<close> of
  one day: the floor of the sum of the scaled counts, plus one unless the floor of some
  scaled count exceeds the count itself.
\<close>

definition spec_target :: "real \<Rightarrow> int list \<Rightarrow> int" where
  "spec_target percentSlack raw =
     (if list_ex (\<lambda>c. c < \<lfloor>real_of_int c * (1 + percentSlack / 100)\<rfloor>) raw
      then \<lfloor>sum_list (map (\<lambda>c. real_of_int c * (1 + percentSlack / 100)) raw)\<rfloor>
      else \<lfloor>sum_list (map (\<lambda>c. real_of_int c * (1 + percentSlack / 100)) raw)\<rfloor> + 1)"

text \<open>The decimal part \<^verbatim>\<open>x - (int) x\<close> that both scans compare.\<close>

definition decimal :: "real \<Rightarrow> real" where
  "decimal a = a - real_of_int (trunc a)"

section \<open>One instance, and the loop over the instances\<close>

text \<open>
  What the program reads of an instance folder: the base names that \<^verbatim>\<open>baseName\<close>
  returns from \<^verbatim>\<open>listOfBases.csv\<close> (\<open>None\<close> when the file cannot be opened and
  \<^verbatim>\<open>baseName\<close> returns false), the number of consecutive files \<^verbatim>\<open>day_1.csv\<close>,
  \<^verbatim>\<open>day_2.csv\<close>, ... (lines 96 to 119), the employees of \<^verbatim>\<open>solution_0\<close> after its two
  first lines (\<open>None\<close> when the file cannot be opened), each with its fourth token, the
  base in parentheses, and the rest of the line after the fifth token, and whether the
  output file can be opened. The files do not change while the program runs.
\<close>

record instance_folder =
  inst_name :: string
  bases_file :: "string list option"
  day_files :: nat
  solution_file :: "(string \<times> string) list option"
  output_opens :: bool

text \<open>
  A table as written: the base names of the header and the rows of the days. The comment
  line with the percentage of slack added is left out.
\<close>

datatype table = Table (table_header: "string list") (table_rows: "real list list")

text \<open>
  The state of \<^verbatim>\<open>main\<close> across the instances: the counter of line 76, the lines printed
  on \<^verbatim>\<open>cout\<close> by the loop, the files written, and the number of calls of \<^verbatim>\<open>rand()\<close>.
\<close>

record run_state =
  instanceNb :: nat
  cout :: "string list"
  written :: "(string \<times> table) list"
  randCalls :: nat

text \<open>Lines 184 to 191: the index of the base of an employee, -1 when it is no base.\<close>

fun find_base :: "string \<Rightarrow> string list \<Rightarrow> nat \<Rightarrow> int" where
  "find_base baseString [] i = - 1"
| "find_base baseString (b # bs) i =
     (if baseString = b then int i else find_base baseString bs (Suc i))"

text \<open>Lines 177 to 241 for one employee.\<close>

definition read_employee :: "string list \<Rightarrow> string \<times> string \<Rightarrow> duty_matrix \<Rightarrow> error + duty_matrix" where
  "read_employee baseNames employee m =
     (case substr (fst employee) 1 (length (fst employee) - 2) of
        Inl e \<Rightarrow> Inl e
      | Inr baseString \<Rightarrow>
          (case substr_from (snd employee) 1 of
             Inl e \<Rightarrow> Inl e
           | Inr schedule \<Rightarrow>
               (let baseIndex = find_base baseString baseNames 0
                in if baseIndex \<noteq> - 1 then
                     (case count_duties (nat baseIndex) schedule (0, m) of
                        Inl e \<Rightarrow> Inl e
                      | Inr st \<Rightarrow> Inr (snd st))
                   else Inr m)))"

text \<open>Line 175: the loop over the employees of the file.\<close>

fun read_solution :: "string list \<Rightarrow> (string \<times> string) list \<Rightarrow> duty_matrix \<Rightarrow> error + duty_matrix" where
  "read_solution baseNames [] m = Inr m"
| "read_solution baseNames (employee # employees) m =
     (case read_employee baseNames employee m of
        Inl e \<Rightarrow> Inl e
      | Inr m' \<Rightarrow> read_solution baseNames employees m')"

text \<open>
  Lines 94 to 557: the work on an instance whose base names were read. The matrix starts
  with a zero for every base and day (lines 128 to 135); the first output is chosen when
  the percentage of the main base is -1 (line 248).
\<close>

definition generate ::
  "real \<Rightarrow> real \<Rightarrow> (nat \<Rightarrow> nat) \<Rightarrow> instance_folder \<Rightarrow> string list \<Rightarrow> run_state \<Rightarrow> error + run_state" where
  "generate percentSlack percentMainBase rand inst baseNames st =
     (case solution_file inst of
        None \<Rightarrow>
          Inr (st\<lparr>cout := cout st @ [''Error : solution_0 file not found in instance folder ''
                 @ inst_name inst @ ''. Proceeding with next instance'']\<rparr>)
      | Some employees \<Rightarrow>
          (case read_solution baseNames employees
                  (replicate (length baseNames) (replicate (day_files inst) 0)) of
             Inl e \<Rightarrow> Inl e
           | Inr init \<Rightarrow>
               if percentMainBase = - 1 then
                 (case mode_A percentSlack (day_files inst) init rand (randCalls st) of
                    Inl e \<Rightarrow> Inl e
                  | Inr res \<Rightarrow>
                      if output_opens inst then
                        Inr (st\<lparr>written := written st @ [(inst_name inst @ ''/crew_avail_const.csv'',
                                 Table baseNames
                                   (map (map real_of_int) (table_A (day_files inst) (fst res))))],
                               randCalls := snd res\<rparr>)
                      else
                        Inr (st\<lparr>cout := cout st @ [''Error : could not open first output file ''
                                 @ ''crew_avail_const.csv in instance '' @ inst_name inst
                                 @ ''. Proceeding with next instance''],
                               randCalls := snd res\<rparr>))
               else
                 (case mode_B percentSlack percentMainBase (day_files inst) init of
                    Inl e \<Rightarrow> Inl e
                  | Inr averages \<Rightarrow>
                      if output_opens inst then
                        Inr (st\<lparr>written := written st @ [(inst_name inst @ ''/crew_avail_const.csv'',
                                 Table baseNames
                                   (table_B (day_files inst) (length baseNames) averages))]\<rparr>)
                      else
                        Inr (st\<lparr>cout := cout st @ [''Error : could not open second output file ''
                                 @ ''crew_avail_const_avg.csv in instance '' @ inst_name inst]\<rparr>))))"

text \<open>
  Lines 83 to 560: the body of the loop over the instances. The increment of line 559 is
  inside the \<^verbatim>\<open>else\<close> of line 91.
\<close>

definition loop_body ::
  "real \<Rightarrow> real \<Rightarrow> (nat \<Rightarrow> nat) \<Rightarrow> instance_folder list \<Rightarrow> run_state \<Rightarrow> error + run_state" where
  "loop_body percentSlack percentMainBase rand instances st =
     (let inst = instances ! instanceNb st
      in case bases_file inst of
           None \<Rightarrow>
             Inr (st\<lparr>cout := cout st @ [''Error : listOfBases.csv file not found in instance ''
                    @ inst_name inst]\<rparr>)
         | Some baseNames \<Rightarrow>
             (case generate percentSlack percentMainBase rand inst baseNames st of
                Inl e \<Rightarrow> Inl e
              | Inr st' \<Rightarrow> Inr (st'\<lparr>instanceNb := instanceNb st' + 1\<rparr>)))"

text \<open>
  Line 82: \<^verbatim>\<open>while(instanceNb < (int) instanceNames.size())\<close>. The result is \<open>None\<close> when
  the loop does not end.
\<close>

partial_function (option) main_loop ::
  "real \<Rightarrow> real \<Rightarrow> (nat \<Rightarrow> nat) \<Rightarrow> instance_folder list \<Rightarrow> run_state \<Rightarrow> (error + run_state) option" where
  "main_loop percentSlack percentMainBase rand instances st =
     (if instanceNb st < length instances then
        (case loop_body percentSlack percentMainBase rand instances st of
           Inl e \<Rightarrow> Some (Inl e)
         | Inr st' \<Rightarrow> main_loop percentSlack percentMainBase rand instances st')
      else Some (Inr st))"

text \<open>
  The matrix of duty counts of an instance with \<open>nb\<close> bases: one row per base,
  \<open>numDays\<close> counts per row, none negative.
\<close>

definition counts_ok :: "nat \<Rightarrow> nat \<Rightarrow> duty_matrix \<Rightarrow> bool" where
  "counts_ok nb numDays m =
     (length m = nb \<and> wf_matrix numDays m \<and> (\<forall>row\<in>set m. \<forall>x\<in>set row. 0 \<le> x))"

section \<open>Properties of the schedule parser\<close>

subsection \<open>The tokenizer\<close>

lemma find_first_append:
  "c \<notin> set t \<Longrightarrow> find_first c (t @ c # rest) = Some (length t)"
  by (induction t) auto

lemma find_first_absent: "c \<notin> set s \<Longrightarrow> find_first c s = None"
  by (induction s) auto

lemma count_duties_last:
  assumes "CHR ''-'' \<notin> set t"
  shows "count_duties b (t @ '';'') st = step_task b t st"
proof -
  have "find_first CHR ''-'' (t @ '';'') = None"
    using assms by (intro find_first_absent) simp
  then show ?thesis
    by (subst count_duties.simps) simp
qed

lemma count_duties_next:
  assumes "CHR ''-'' \<notin> set t"
  shows "count_duties b (t @ ''--->'' @ rest) st =
           (case step_task b t st of Inl e \<Rightarrow> Inl e | Inr st' \<Rightarrow> count_duties b rest st')"
proof -
  define s where "s = t @ ''--->'' @ rest"
  have "find_first CHR ''-'' (t @ CHR ''-'' # (''-->'' @ rest)) = Some (length t)"
    using assms by (rule find_first_append)
  then have f: "find_first CHR ''-'' s = Some (length t)"
    by (simp add: s_def)
  have l: "\<not> length s < length t + 4" and tk: "take (length t) s = t"
    and dr: "drop (length t + 4) s = rest"
    by (simp_all add: s_def)
  have "count_duties b s st =
           (case step_task b t st of Inl e \<Rightarrow> Inl e | Inr st' \<Rightarrow> count_duties b rest st')"
    by (subst count_duties.simps) (simp only: f l tk dr option.case if_False)
  then show ?thesis by (simp only: s_def)
qed

lemma count_duties_join:
  assumes "tasks \<noteq> []" and "\<forall>t\<in>set tasks. CHR ''-'' \<notin> set t"
  shows "count_duties b (join_tasks tasks) st = run_tasks b tasks st"
  using assms
proof (induction tasks arbitrary: st rule: join_tasks.induct)
  case 1
  then show ?case by simp
next
  case (2 t)
  then show ?case
    using count_duties_last [of t b st] by (simp split: sum.splits)
next
  case (3 t u us)
  then show ?case
    using count_duties_next [of t b "join_tasks (u # us)" st]
    by (simp split: sum.splits)
qed

subsection \<open>Events\<close>

lemma run_tasks_events:
  assumes "list_all2 (\<lambda>t d. task_day t = Inr d) tasks ds"
  shows "run_tasks b tasks (day, m) =
           (case spec_aggregate b (spec_events day (days_of ds)) m of
              Inl e \<Rightarrow> Inl e
            | Inr m' \<Rightarrow> Inr (foldl max day (days_of ds), m'))"
  using assms
proof (induction tasks ds arbitrary: day m rule: list_all2_induct)
  case Nil
  then show ?case by simp
next
  case (Cons t ts d ds)
  show ?case
  proof (cases d)
    case None
    with Cons show ?thesis by (simp add: step_task_def cong: sum.case_cong)
  next
    case (Some x)
    with Cons show ?thesis
      by (simp add: step_task_def max_def split: sum.splits cong: sum.case_cong)
  qed
qed

text \<open>
  Claim C3. The tasks of an employee are taken in their order, with the running day
  starting at 0. A task that is an airleg of day \<open>d\<close> adds a duty for the base exactly
  when \<open>d\<close> exceeds the running day, which then becomes \<open>d\<close>: the matrix after the
  loop is the matrix after the events of the specification, and the running day is the
  largest day met. Nothing fails when the days are not increasing. The tasks are those
  that the program classifies without an exception and without reading an uninitialised
  day (\<open>task_day t = Inr d\<close>). The instance after the theorem runs the days 1, 3, 2
  (events for days 1 and 3 only) and the days 1, 1, 2, 2, 2, 3 (three events).
\<close>

theorem parser_events:
  assumes "tasks \<noteq> []"
    and "\<forall>t\<in>set tasks. CHR ''-'' \<notin> set t"
    and "list_all2 (\<lambda>t d. task_day t = Inr d) tasks ds"
  shows "count_duties b (join_tasks tasks) (0, m) =
           (case spec_aggregate b (spec_events 0 (days_of ds)) m of
              Inl e \<Rightarrow> Inl e
            | Inr m' \<Rightarrow> Inr (foldl max 0 (days_of ds), m'))"
  using assms by (simp add: count_duties_join run_tasks_events)

theorem parser_events_witness:
  "count_duties 0 ''LEG_01_00960_0--->LEG_03_00150_0--->LEG_02_00770_0;'' (0, [[0, 0, 0]])
     = Inr (3, [[1, 0, 1]])
   \<and> spec_events 0 [1, 3, 2] = [1, 3]
   \<and> count_duties 0 ''LEG_01_1--->LEG_01_2--->LEG_02_1--->LEG_02_2--->LEG_02_3--->LEG_03_1;''
       (0, [[0, 0, 0]]) = Inr (3, [[1, 1, 1]])
   \<and> spec_events 0 [1, 1, 2, 2, 2, 3] = [1, 2, 3]"
  using parser_events [of "[''LEG_01_00960_0'', ''LEG_03_00150_0'', ''LEG_02_00770_0'']"
      "[Some 1, Some 3, Some 2]" 0 "[[0, 0, 0]]"]
    parser_events [of "[''LEG_01_1'', ''LEG_01_2'', ''LEG_02_1'', ''LEG_02_2'', ''LEG_02_3'', ''LEG_03_1'']"
      "[Some 1, Some 1, Some 2, Some 2, Some 2, Some 3]" 0 "[[0, 0, 0]]"]
  by (simp add: task_day_def substr_def substr_from_def extract_int_def isspace_def isdigit_def
      add_duty_def)

text \<open>
  The error paths of the classification: a task that ends before offset 4 makes
  \<^verbatim>\<open>substr\<close> throw, and a day code that is empty or blank leaves \<^verbatim>\<open>taskDay\<close>
  uninitialised; a day code without a digit gives day 0.
\<close>

lemma task_day_errors:
  "task_day ''LEG'' = Inl OutOfRange
   \<and> task_day ''PAL'' = Inl OutOfRange
   \<and> task_day ''LEG_'' = Inl UninitialisedRead
   \<and> task_day ''PAL_LEG_'' = Inl UninitialisedRead
   \<and> task_day ''LEG_  _00960'' = Inl UninitialisedRead
   \<and> task_day ''LEG_ 7_00960'' = Inr (Some 7)
   \<and> task_day ''LEG_7'' = Inr (Some 7)
   \<and> task_day ''LEG__7_00960'' = Inr (Some 0)"
  by (simp add: task_day_def substr_def substr_from_def extract_int_def isspace_def isdigit_def)

text \<open>
  Claim C7. A task equal to \<^verbatim>\<open>VACATION\<close>, or starting with \<^verbatim>\<open>POST\<close> or \<^verbatim>\<open>TDH\<close>, is
  not an airleg and leaves the running day and the matrix as they are. A task
  \<^verbatim>\<open>PAL_\<close> followed by an identifier of at least four characters is handled through
  the two characters at positions 4 and 5 of that identifier: the task is an airleg of
  the day that the extraction reads from them, and where the extraction assigns no value
  (an empty or blank day code) the program reads an uninitialised variable. When the
  identifier is itself an airleg without the flag, the task is treated as the identifier
  is.
\<close>

theorem task_classification:
  "(task = ''VACATION'' \<or> take 4 task = ''POST'' \<or> take 3 task = ''TDH'' \<longrightarrow>
      task_day task = Inr None \<and> step_task b task st = Inr st)
   \<and> (4 \<le> length t \<longrightarrow>
      task_day (''PAL_'' @ t) =
        (case extract_int (take 2 (drop 4 t)) of
           Inl e \<Rightarrow> Inl e
         | Inr taskDay \<Rightarrow> Inr (Some taskDay)))
   \<and> (4 \<le> length t \<and> t \<noteq> ''VACATION'' \<and> take 4 t \<noteq> ''POST'' \<and> take 3 t \<noteq> ''TDH''
        \<and> take 3 t \<noteq> ''PAL'' \<longrightarrow>
      task_day (''PAL_'' @ t) = task_day t)"
  by (auto simp add: task_day_def step_task_def substr_def substr_from_def)

theorem task_classification_witness:
  "task_day ''VACATION'' = Inr None \<and> step_task 0 ''VACATION'' (0, [[0]]) = Inr (0, [[0]])
   \<and> task_day ''POST_Y'' = Inr None \<and> step_task 0 ''POST_Y'' (0, [[0]]) = Inr (0, [[0]])
   \<and> task_day ''TDH_X'' = Inr None \<and> step_task 0 ''TDH_X'' (0, [[0]]) = Inr (0, [[0]])
   \<and> task_day ''PAL_LEG_07_00960_0'' = Inr (Some 7)
   \<and> task_day ''LEG_07_00960_0'' = Inr (Some 7)
   \<and> task_day ''PAL_LEG_'' = Inl UninitialisedRead"
  using task_classification [of "''VACATION''" 0 "(0, [[0]])" "''LEG_07_00960_0''"]
    task_classification [of "''POST_Y''" 0 "(0, [[0]])" "''LEG_07_00960_0''"]
    task_classification [of "''TDH_X''" 0 "(0, [[0]])" "''LEG_''"]
  by (simp add: extract_int_def isspace_def isdigit_def)

section \<open>Properties of the first output\<close>

subsection \<open>Truncation, sums and columns\<close>

lemma trunc_of_int [simp]: "trunc (real_of_int n) = n"
  by (simp add: trunc_def)

lemma trunc_of_int_add1 [simp]: "trunc (real_of_int n + 1) = n + 1"
  by (simp add: trunc_def)

lemma trunc_nonneg: "0 \<le> x \<Longrightarrow> trunc x = \<lfloor>x\<rfloor>"
  by (simp add: trunc_def)

lemma decimal_nonneg: "0 \<le> x \<Longrightarrow> 0 \<le> x - real_of_int (trunc x)"
  by (simp add: trunc_def)

lemma sum_list_map_update:
  fixes f :: "'a \<Rightarrow> int"
  shows "b < length xs \<Longrightarrow> sum_list (map f (xs[b := y])) = sum_list (map f xs) - f (xs ! b) + f y"
proof (induction xs arbitrary: b)
  case Nil
  then show ?case by simp
next
  case (Cons x xs)
  then show ?case by (cases b) simp_all
qed

lemma trunc_sum_round_up:
  assumes "b < length xs"
  shows "sum_list (map trunc (xs[b := real_of_int (trunc (xs ! b) + 1)])) = sum_list (map trunc xs) + 1"
  using sum_list_map_update [OF assms, of trunc "real_of_int (trunc (xs ! b) + 1)"] by simp

lemma column_update_same:
  assumes "b < length d" and "j < length (d ! b)"
  shows "map (\<lambda>row. row ! j) (d[b := (d ! b)[j := v]]) = (map (\<lambda>row. row ! j) d)[b := v]"
  using assms by (simp add: map_update)

lemma column_update_other:
  assumes "j' \<noteq> j"
  shows "map (\<lambda>row. row ! j') (d[b := (d ! b)[j := v]]) = map (\<lambda>row. row ! j') d"
proof (cases "b < length d")
  case True
  then have "(map (\<lambda>row. row ! j') d)[b := d ! b ! j'] = map (\<lambda>row. row ! j') d"
    by (metis length_map list_update_id nth_map)
  with assms show ?thesis by (simp add: map_update)
next
  case False
  then show ?thesis by (simp add: list_update_beyond)
qed

subsection \<open>The scan and one round\<close>

lemma highest_decimals_indexes:
  "set (fst (highest_decimals xs k (idx, hi))) \<subseteq> set idx \<union> {k..<k + length xs}"
proof (induction xs arbitrary: k idx hi)
  case Nil
  then show ?case by simp
next
  case (Cons x xs)
  have a: "set (fst (highest_decimals xs (Suc k) ([k], x - real_of_int (trunc x))))
             \<subseteq> set [k] \<union> {Suc k..<Suc k + length xs}"
    by (rule Cons.IH)
  have b: "set (fst (highest_decimals xs (Suc k) (idx @ [k], hi)))
             \<subseteq> set (idx @ [k]) \<union> {Suc k..<Suc k + length xs}"
    by (rule Cons.IH)
  have c: "set (fst (highest_decimals xs (Suc k) (idx, hi)))
             \<subseteq> set idx \<union> {Suc k..<Suc k + length xs}"
    by (rule Cons.IH)
  from a b c show ?case by (auto split: if_splits)
qed

lemma highest_decimals_keeps_nonempty:
  "idx \<noteq> [] \<Longrightarrow> fst (highest_decimals xs k (idx, hi)) \<noteq> []"
  by (induction xs arbitrary: k idx hi) auto

lemma highest_decimals_nonempty:
  assumes "xs \<noteq> []" and "0 \<le> hd xs"
  shows "fst (highest_decimals xs 0 ([], 0)) \<noteq> []"
proof (cases xs)
  case Nil
  with assms show ?thesis by simp
next
  case (Cons x ys)
  with assms have "0 \<le> x" by simp
  then have "0 \<le> x - real_of_int (trunc x)"
    by (rule decimal_nonneg)
  then show ?thesis
    unfolding Cons by (auto simp: highest_decimals_keeps_nonempty)
qed

lemma wf_raise: "wf_matrix numDays d \<Longrightarrow> wf_matrix numDays (raise b j d)"
  unfolding wf_matrix_def raise_def
  by (metis in_set_conv_nth length_list_update nth_list_update_eq nth_list_update_neq nth_mem)

lemma length_raise [simp]: "length (raise b j d) = length d"
  by (simp add: raise_def)

lemma nonneg_raise:
  assumes "nonneg_matrix d"
  shows "nonneg_matrix (raise b j d)"
proof (cases "b < length d \<and> j < length (d ! b)")
  case True
  then have "d ! b \<in> set d" and "d ! b ! j \<in> set (d ! b)"
    by simp_all
  then have "0 \<le> d ! b ! j"
    using assms unfolding nonneg_matrix_def by blast
  then have v: "0 \<le> real_of_int (trunc (d ! b ! j) + 1)"
    by (simp add: trunc_def)
  have row: "\<forall>x\<in>set ((d ! b)[j := real_of_int (trunc (d ! b ! j) + 1)]). 0 \<le> x"
  proof
    fix x assume "x \<in> set ((d ! b)[j := real_of_int (trunc (d ! b ! j) + 1)])"
    then have "x = real_of_int (trunc (d ! b ! j) + 1) \<or> x \<in> set (d ! b)"
      using set_update_subset_insert by fastforce
    with v True assms show "0 \<le> x"
      by (auto simp: nonneg_matrix_def)
  qed
  show ?thesis
    unfolding nonneg_matrix_def raise_def
  proof
    fix r assume "r \<in> set (d[b := (d ! b)[j := real_of_int (trunc (d ! b ! j) + 1)]])"
    then have "r = (d ! b)[j := real_of_int (trunc (d ! b ! j) + 1)] \<or> r \<in> set d"
      using set_update_subset_insert by fastforce
    with row assms show "\<forall>x\<in>set r. 0 \<le> x"
      by (auto simp: nonneg_matrix_def)
  qed
next
  case False
  then have "raise b j d = d"
    by (auto simp: raise_def list_update_beyond not_less list_update_same_conv)
  with assms show ?thesis by simp
qed

lemma column_raise_other: "j' \<noteq> j \<Longrightarrow> column j' (raise b j d) = column j' d"
  unfolding column_def raise_def by (rule column_update_other)

lemma column_raise_same:
  assumes "b < length d" and "wf_matrix numDays d" and "j < numDays"
  shows "column j (raise b j d) = (column j d)[b := real_of_int (trunc (column j d ! b) + 1)]"
proof -
  have "j < length (d ! b)"
    using assms by (simp add: wf_matrix_def)
  with assms(1) show ?thesis
    unfolding column_def raise_def by (simp add: column_update_same)
qed

lemma round_one_raise:
  assumes "wf_matrix numDays d" and "nonneg_matrix d" and "d \<noteq> []" and "j < numDays"
  shows "\<exists>b<length d. round_one rand j (d, c) = Inr (raise b j d, Suc c)"
proof -
  define idx where "idx = fst (highest_decimals (map (\<lambda>row. row ! j) d) 0 ([], 0))"
  have "0 \<le> hd d ! j"
    using assms by (cases d) (auto simp: nonneg_matrix_def wf_matrix_def)
  then have "0 \<le> hd (map (\<lambda>row. row ! j) d)"
    using assms(3) by (simp add: hd_map)
  then have ne: "idx \<noteq> []"
    unfolding idx_def using assms(3) by (intro highest_decimals_nonempty) simp_all
  define b where "b = idx ! (rand c mod length idx)"
  have "b \<in> set idx"
    unfolding b_def using ne by simp
  then have "b < length d"
    using highest_decimals_indexes [of "map (\<lambda>row. row ! j) d" 0 "[]" 0]
    unfolding idx_def by auto
  moreover have "round_one rand j (d, c) = Inr (raise b j d, Suc c)"
    using ne by (simp add: round_one_def raise_def Let_def idx_def b_def)
  ultimately show ?thesis by blast
qed

subsection \<open>The loops\<close>

lemma rounded_refl:
  "wf_matrix numDays d \<Longrightarrow> nonneg_matrix d \<Longrightarrow> rounded numDays (\<lambda>j. 0) d d"
  by (simp add: rounded_def list_all2_refl)

lemma rounded_trans:
  assumes "rounded numDays N d d'" and "rounded numDays M d' d''"
  shows "rounded numDays (\<lambda>j. N j + M j) d d''"
proof -
  have "list_all2 (\<lambda>x y. trunc x \<le> trunc y) (column j d) (column j d'')" if "j < numDays" for j
  proof -
    have "list_all2 (\<lambda>x y. trunc x \<le> trunc y) (column j d) (column j d')"
      and "list_all2 (\<lambda>x y. trunc x \<le> trunc y) (column j d') (column j d'')"
      using assms that by (simp_all add: rounded_def)
    then show ?thesis
      by (rule list_all2_trans [rotated]) simp
  qed
  with assms show ?thesis
    by (simp add: rounded_def)
qed

lemma rounded_raise:
  assumes "wf_matrix numDays d" and "nonneg_matrix d" and "b < length d" and "j < numDays"
  shows "rounded numDays (\<lambda>j'. if j' = j then 1 else 0) d (raise b j d)"
proof -
  have same: "column j (raise b j d) = (column j d)[b := real_of_int (trunc (column j d ! b) + 1)]"
    using assms by (simp add: column_raise_same)
  have lb: "b < length (column j d)"
    using assms by (simp add: column_def)
  have s: "sum_list (map trunc (column j (raise b j d))) = sum_list (map trunc (column j d)) + 1"
    unfolding same using lb by (rule trunc_sum_round_up)
  have "list_all2 (\<lambda>x y. trunc x \<le> trunc y) ((column j d)[b := column j d ! b])
          ((column j d)[b := real_of_int (trunc (column j d ! b) + 1)])"
    by (rule list_all2_update_cong) (simp_all add: list_all2_refl)
  then have m: "list_all2 (\<lambda>x y. trunc x \<le> trunc y) (column j d) (column j (raise b j d))"
    unfolding same by simp
  have o: "list_all2 (\<lambda>x y. trunc x \<le> trunc y) (column j' d) (column j' (raise b j d))"
    for j'
    using m by (cases "j' = j") (simp_all add: column_raise_other list_all2_refl)
  show ?thesis
    unfolding rounded_def
    using assms s o
    by (simp add: wf_raise nonneg_raise column_raise_other)
qed

lemma round_up_rounded:
  assumes "wf_matrix numDays d" and "nonneg_matrix d" and "d \<noteq> []" and "j < numDays"
  shows "\<exists>d'. round_up n rand j (d, c) = Inr (d', c + n)
            \<and> rounded numDays (\<lambda>j'. if j' = j then n else 0) d d'"
  using assms
proof (induction n arbitrary: d c)
  case 0
  then show ?case
    using rounded_refl [of numDays d] by simp
next
  case (Suc n)
  from round_one_raise [OF Suc.prems, of rand c]
  obtain b where b: "b < length d" and one: "round_one rand j (d, c) = Inr (raise b j d, Suc c)"
    by blast
  have r1: "rounded numDays (\<lambda>j'. if j' = j then 1 else 0) d (raise b j d)"
    using Suc.prems b by (intro rounded_raise)
  then have "wf_matrix numDays (raise b j d)" and "nonneg_matrix (raise b j d)"
    by (simp_all add: rounded_def)
  moreover have "raise b j d \<noteq> []"
    using Suc.prems(3) by (simp add: raise_def)
  ultimately have "wf_matrix numDays (raise b j d)" and "nonneg_matrix (raise b j d)"
    and "raise b j d \<noteq> []"
    by simp_all
  from Suc.IH [OF this \<open>j < numDays\<close>, of "Suc c"]
  obtain d' where run: "round_up n rand j (raise b j d, Suc c) = Inr (d', Suc c + n)"
    and r2: "rounded numDays (\<lambda>j'. if j' = j then n else 0) (raise b j d) d'"
    by blast
  have "(\<lambda>j'. (if j' = j then 1 else 0) + (if j' = j then n else 0))
          = (\<lambda>j'. if j' = j then Suc n else 0)"
    by auto
  with rounded_trans [OF r1 r2]
  have "rounded numDays (\<lambda>j'. if j' = j then Suc n else 0) d d'"
    by simp
  with one run show ?case by simp
qed

lemma numberRoundUp_positive:
  "0 < trunc (sumD ! j) + 1 - sumRD ! j \<Longrightarrow>
     numberRoundUp init d sumD sumRD j = trunc (sumD ! j) + 1 - sumRD ! j"
  by (simp add: numberRoundUp_def Let_def)

lemma round_days_rounded:
  assumes "wf_matrix numDays d" and "nonneg_matrix d" and "d \<noteq> []"
    and "\<forall>j\<in>set js. j < numDays" and "distinct js"
    and "\<forall>j\<in>set js. 0 < trunc (sumD ! j) + 1 - sumRD ! j"
  shows "\<exists>d' c'. round_days js init sumD sumRD rand (d, c) = Inr (d', c')
            \<and> rounded numDays
                 (\<lambda>j. if j \<in> set js then nat (trunc (sumD ! j) + 1 - sumRD ! j) else 0) d d'"
  using assms
proof (induction js arbitrary: d c)
  case Nil
  then show ?case
    using rounded_refl [of numDays d] by simp
next
  case (Cons j js)
  let ?N = "\<lambda>j. nat (trunc (sumD ! j) + 1 - sumRD ! j)"
  have j: "j < numDays" and pos: "0 < trunc (sumD ! j) + 1 - sumRD ! j" and new: "j \<notin> set js"
    using Cons.prems by simp_all
  have n: "numberRoundUp init d sumD sumRD j = trunc (sumD ! j) + 1 - sumRD ! j"
    using pos by (rule numberRoundUp_positive)
  from round_up_rounded [OF Cons.prems(1-3) j, of "?N j" rand c]
  obtain d1 where up: "round_up (?N j) rand j (d, c) = Inr (d1, c + ?N j)"
    and r1: "rounded numDays (\<lambda>j'. if j' = j then ?N j else 0) d d1"
    by blast
  have "wf_matrix numDays d1" and "nonneg_matrix d1" and "d1 \<noteq> []"
    using r1 Cons.prems(3) by (auto simp: rounded_def)
  moreover have "\<forall>j\<in>set js. j < numDays" and "distinct js"
    and "\<forall>j\<in>set js. 0 < trunc (sumD ! j) + 1 - sumRD ! j"
    using Cons.prems by simp_all
  ultimately obtain d' c' where rest: "round_days js init sumD sumRD rand (d1, c + ?N j) = Inr (d', c')"
    and r2: "rounded numDays (\<lambda>j. if j \<in> set js then ?N j else 0) d1 d'"
    using Cons.IH [of d1 "c + ?N j"] by blast
  have "(\<lambda>j'. (if j' = j then ?N j else 0) + (if j' \<in> set js then ?N j' else 0))
          = (\<lambda>j'. if j' \<in> set (j # js) then ?N j' else 0)"
    using new by auto
  with rounded_trans [OF r1 r2]
  have "rounded numDays (\<lambda>j'. if j' \<in> set (j # js) then ?N j' else 0) d d'"
    by simp
  with up rest n show ?case by simp
qed

lemma floor_sum_list: "sum_list (map floor xs) \<le> \<lfloor>sum_list xs :: real\<rfloor>"
proof (induction xs)
  case Nil
  then show ?case by simp
next
  case (Cons x xs)
  have "\<lfloor>x\<rfloor> + \<lfloor>sum_list xs\<rfloor> \<le> \<lfloor>x + sum_list xs\<rfloor>"
    by (rule le_floor_add)
  with Cons show ?case by simp
qed

lemma trunc_sum_list:
  assumes "\<forall>x\<in>set xs. 0 \<le> x"
  shows "sum_list (map trunc xs) \<le> trunc (sum_list xs)"
proof -
  have "map trunc xs = map floor xs"
    using assms by (induction xs) (simp_all add: trunc_def)
  then have a: "sum_list (map trunc xs) = sum_list (map floor xs)"
    by (simp only:)
  have "0 \<le> sum_list xs"
    using assms by (simp add: sum_list_nonneg)
  then have b: "trunc (sum_list xs) = \<lfloor>sum_list xs\<rfloor>"
    by (simp add: trunc_def)
  show ?thesis
    using floor_sum_list [of xs] by (simp only: a b)
qed

lemma map_nth_upt: "map (\<lambda>i. f (xs ! i)) [0..<length xs] = map f xs"
proof -
  have "map (\<lambda>i. f (xs ! i)) [0..<length xs] = map f (map (\<lambda>i. xs ! i) [0..<length xs])"
    by (simp only: map_map comp_def)
  then show ?thesis by (simp only: map_nth)
qed

lemma table_A_row:
  "j < numDays \<Longrightarrow> table_A numDays d ! j = map trunc (column j d)"
proof -
  assume "j < numDays"
  then have "table_A numDays d ! j = map (\<lambda>i. trunc (d ! i ! j)) [0..<length d]"
    by (simp add: table_A_def)
  also have "\<dots> = map (\<lambda>row. trunc (row ! j)) d"
    by (rule map_nth_upt)
  finally show ?thesis by (simp add: column_def)
qed

lemma wf_scaled_duties: "wf_matrix numDays (scaled_duties percentSlack numDays init)"
  by (simp add: wf_matrix_def scaled_duties_def)

lemma column_scaled_duties:
  "j < numDays \<Longrightarrow>
     column j (scaled_duties percentSlack numDays init)
       = map (\<lambda>row. real_of_int (row ! j) * (1 + percentSlack / 100)) init"
  by (simp add: column_def scaled_duties_def)

lemma nonneg_scaled_duties:
  assumes "wf_matrix numDays init" and "\<forall>row\<in>set init. \<forall>x\<in>set row. 0 \<le> x"
    and "- 100 \<le> percentSlack"
  shows "nonneg_matrix (scaled_duties percentSlack numDays init)"
  unfolding nonneg_matrix_def scaled_duties_def
proof (intro ballI)
  fix r x
  assume "r \<in> set (map (\<lambda>row. map (\<lambda>j. 1 * real_of_int (row ! j) * (1 + percentSlack / 100))
                       [0..<numDays]) init)"
    and x: "x \<in> set r"
  then obtain row where row: "row \<in> set init"
    and r: "r = map (\<lambda>j. 1 * real_of_int (row ! j) * (1 + percentSlack / 100)) [0..<numDays]"
    by auto
  from x r obtain j where j: "j < numDays" and xj: "x = real_of_int (row ! j) * (1 + percentSlack / 100)"
    by auto
  have "length row = numDays"
    using assms(1) row by (simp add: wf_matrix_def)
  with j have "row ! j \<in> set row" by simp
  with assms(2) row have "0 \<le> row ! j" by blast
  with assms(3) show "0 \<le> x"
    unfolding xj by simp
qed

lemma nonneg_column:
  assumes "nonneg_matrix d" and "wf_matrix numDays d" and "j < numDays"
  shows "\<forall>x\<in>set (column j d). 0 \<le> x"
proof
  fix x assume "x \<in> set (column j d)"
  then obtain row where row: "row \<in> set d" and x: "x = row ! j"
    by (auto simp: column_def)
  with assms have "j < length row" by (simp add: wf_matrix_def)
  then have "row ! j \<in> set row" by simp
  with assms(1) row x show "0 \<le> x"
    by (auto simp: nonneg_matrix_def)
qed

lemma mode_A_rounded:
  assumes "wf_matrix numDays init" and "init \<noteq> []"
    and "\<forall>row\<in>set init. \<forall>x\<in>set row. 0 \<le> x" and "- 100 \<le> percentSlack"
  shows "\<exists>d c'. mode_A percentSlack numDays init rand c = Inr (d, c')
           \<and> length d = length init
           \<and> (\<forall>j<numDays. sum_list (map trunc (column j d)) =
                 \<lfloor>sum_list (map (\<lambda>row. real_of_int (row ! j) * (1 + percentSlack / 100)) init)\<rfloor> + 1)
           \<and> (\<forall>j<numDays. list_all2 (\<lambda>x y. trunc x \<le> trunc y)
                 (map (\<lambda>row. real_of_int (row ! j) * (1 + percentSlack / 100)) init) (column j d))"
proof -
  define d0 where "d0 = scaled_duties percentSlack numDays init"
  define sumD where "sumD = map (sumDutiesPerDay d0) [0..<numDays]"
  define sumRD where "sumRD = map (sumRoundedDownDutiesPerDay d0) [0..<numDays]"
  have wf: "wf_matrix numDays d0"
    unfolding d0_def by (rule wf_scaled_duties)
  have nn: "nonneg_matrix d0"
    unfolding d0_def using assms(1,3,4) by (rule nonneg_scaled_duties)
  have ne: "d0 \<noteq> []"
    unfolding d0_def scaled_duties_def using assms(2) by simp
  have len: "length d0 = length init"
    by (simp add: d0_def scaled_duties_def)
  have col: "column j d0 = map (\<lambda>row. real_of_int (row ! j) * (1 + percentSlack / 100)) init"
    if "j < numDays" for j
    unfolding d0_def using that by (rule column_scaled_duties)
  have sD: "sumD ! j = sum_list (column j d0)" if "j < numDays" for j
    using that by (simp add: sumD_def sumDutiesPerDay_def column_def)
  have sRD: "sumRD ! j = sum_list (map trunc (column j d0))" if "j < numDays" for j
    using that by (simp add: sumRD_def sumRoundedDownDutiesPerDay_def column_def comp_def)
  have le: "sum_list (map trunc (column j d0)) \<le> trunc (sum_list (column j d0))"
    if "j < numDays" for j
    using nonneg_column [OF nn wf that] by (rule trunc_sum_list)
  have pos: "\<forall>j\<in>set [0..<numDays]. 0 < trunc (sumD ! j) + 1 - sumRD ! j"
    using le by (simp add: sD sRD)
  have "\<forall>j\<in>set [0..<numDays]. j < numDays" and "distinct [0..<numDays]"
    by simp_all
  from round_days_rounded [OF wf nn ne this pos, of init rand c]
  obtain d c' where run: "round_days [0..<numDays] init sumD sumRD rand (d0, c) = Inr (d, c')"
    and r: "rounded numDays
              (\<lambda>j. if j \<in> set [0..<numDays] then nat (trunc (sumD ! j) + 1 - sumRD ! j) else 0) d0 d"
    by blast
  have m: "mode_A percentSlack numDays init rand c = Inr (d, c')"
    using run by (simp add: mode_A_def Let_def d0_def sumD_def sumRD_def)
  have total: "sum_list (map trunc (column j d)) =
          \<lfloor>sum_list (map (\<lambda>row. real_of_int (row ! j) * (1 + percentSlack / 100)) init)\<rfloor> + 1"
    if j: "j < numDays" for j
  proof -
    have "sum_list (map trunc (column j d)) =
            sum_list (map trunc (column j d0)) + int (nat (trunc (sumD ! j) + 1 - sumRD ! j))"
      using r j by (simp add: rounded_def)
    also have "\<dots> = trunc (sum_list (column j d0)) + 1"
      using le [OF j] by (simp add: sD sRD j)
    also have "trunc (sum_list (column j d0)) = \<lfloor>sum_list (column j d0)\<rfloor>"
      using nonneg_column [OF nn wf j] by (simp add: trunc_def sum_list_nonneg)
    finally show ?thesis by (simp add: col j)
  qed
  have mono: "list_all2 (\<lambda>x y. trunc x \<le> trunc y)
          (map (\<lambda>row. real_of_int (row ! j) * (1 + percentSlack / 100)) init) (column j d)"
    if j: "j < numDays" for j
  proof -
    have "list_all2 (\<lambda>x y. trunc x \<le> trunc y) (column j d0) (column j d)"
      using r j by (simp add: rounded_def)
    then show ?thesis by (simp only: col [OF j])
  qed
  have "length d = length init"
    using r len by (simp add: rounded_def)
  with m total mono show ?thesis by blast
qed

subsection \<open>The total of a day\<close>

text \<open>
  Claim C1: the values written for a day add up to \<open>T\<close>, the floor of the sum of the
  scaled counts plus one, except that \<open>T\<close> is the floor alone when the floor of the scaled
  count of some base exceeds the count itself. The program does not follow it. Two bases
  with 2 and 1 duties on the only day and 50 percent of slack: the scaled counts are 3
  and 1.5, and the floor 3 of the first exceeds its count 2, so \<open>T\<close> is the floor of 4.5,
  which is 4. Line 290 has already added 1 to the floor of the sum, so the number of
  bases to round up is 5 - 4 = 1, the guard \<^verbatim>\<open>numberRoundUp == 0\<close> of line 293 is false and
  the test of lines 297 to 306, which the comment of lines 295 and 296 announces, is not
  reached. The second base is rounded up, whatever the random value is, and the day adds
  up to 5.
\<close>

theorem mode_A_exception_not_reached:
  "scaled_duties 50 1 [[2], [1]] = [[3], [3 / 2]]
   \<and> trunc (sumDutiesPerDay [[3], [3 / 2]] 0) + 1 - sumRoundedDownDutiesPerDay [[3], [3 / 2]] 0 = 1
   \<and> list_ex (\<lambda>i. [[2], [1]] ! i ! 0 < trunc ([[3], [3 / 2]] ! i ! 0)) [0..<length [[2 :: int], [1]]]
   \<and> mode_A 50 1 [[2], [1]] rand calls = Inr ([[3], [2]], calls + 1)
   \<and> sum_list (table_A 1 [[3], [2]] ! 0) = 5
   \<and> spec_target 50 (map (\<lambda>row. row ! 0) [[2], [1]]) = 4"
  by (simp add: mode_A_def scaled_duties_def sumDutiesPerDay_def sumRoundedDownDutiesPerDay_def
      numberRoundUp_def round_one_def table_A_def spec_target_def trunc_def Let_def
      numeral_2_eq_2)

subsection \<open>The total of a day against the duties of the day\<close>

lemma scaled_sum_ge:
  assumes "\<forall>row\<in>set init. 0 \<le> row ! j" and "0 \<le> percentSlack"
  shows "real_of_int (sum_list (map (\<lambda>row. row ! j) init))
           \<le> sum_list (map (\<lambda>row. real_of_int (row ! j) * (1 + percentSlack / 100)) init)"
  using assms(1)
proof (induction init)
  case Nil
  then show ?case by simp
next
  case (Cons row init)
  then have "0 \<le> real_of_int (row ! j)" by simp
  with assms(2) have "0 \<le> real_of_int (row ! j) * (percentSlack / 100)"
    by simp
  then have "real_of_int (row ! j) \<le> real_of_int (row ! j) * (1 + percentSlack / 100)"
    by (simp add: algebra_simps)
  with Cons show ?case by simp
qed

text \<open>
  The second mode with no slack, 75 percent for the main base and two days: the first
  base has 10 duties on the first day and none on the second, the other base has none.
  The sum of the averages is 5, the targets are 3.75 and 1.25, and the flat allocation
  is 4 and 2: together 6, which is less than the 10 duties of the first day.
\<close>

theorem mode_B_below_day_counterexample:
  "mode_B 0 75 2 [[10, 0], [0, 0]] = Inr [4, 2]
   \<and> sum_list (table_B 2 2 [4, 2] ! 0) < real_of_int (sum_list (map (\<lambda>row. row ! 0) [[10, 0], [0, 0]]))"
  by (simp add: mode_B_def period_sum_def sum_averages_def distribute_def target_average_def
      round_best_def table_B_def trunc_def Let_def upt_rec numeral_2_eq_2)

text \<open>
  Claim C4, amended. In the first mode, with a slack that is not negative, the values
  written for a day add up to more than the duties of that day: the inequality is strict
  and equality never occurs. (The second mode gives no such bound for a single day, as
  the example above shows.)
\<close>

theorem mode_A_day_exceeds_duties:
  assumes "wf_matrix numDays init" and "init \<noteq> []"
    and "\<forall>row\<in>set init. \<forall>x\<in>set row. 0 \<le> x" and "0 \<le> percentSlack"
    and "j < numDays"
  shows "\<exists>d c'. mode_A percentSlack numDays init rand c = Inr (d, c')
           \<and> sum_list (map (\<lambda>row. row ! j) init) < sum_list (table_A numDays d ! j)"
proof -
  have "- 100 \<le> percentSlack" using assms(4) by simp
  from mode_A_rounded [OF assms(1-3) this, of rand c] assms(5)
  obtain d c' where m: "mode_A percentSlack numDays init rand c = Inr (d, c')"
    and t: "sum_list (map trunc (column j d)) =
              \<lfloor>sum_list (map (\<lambda>row. real_of_int (row ! j) * (1 + percentSlack / 100)) init)\<rfloor> + 1"
    by blast
  have "\<forall>row\<in>set init. 0 \<le> row ! j"
  proof
    fix row assume row: "row \<in> set init"
    with assms(1,5) have "row ! j \<in> set row" by (simp add: wf_matrix_def)
    with assms(3) row show "0 \<le> row ! j" by blast
  qed
  then have "real_of_int (sum_list (map (\<lambda>row. row ! j) init))
           \<le> sum_list (map (\<lambda>row. real_of_int (row ! j) * (1 + percentSlack / 100)) init)"
    using assms(4) by (rule scaled_sum_ge)
  then have "sum_list (map (\<lambda>row. row ! j) init)
           \<le> \<lfloor>sum_list (map (\<lambda>row. real_of_int (row ! j) * (1 + percentSlack / 100)) init)\<rfloor>"
    by (simp add: le_floor_iff)
  with t have "sum_list (map (\<lambda>row. row ! j) init) < sum_list (map trunc (column j d))"
    by simp
  with m assms(5) show ?thesis by (auto simp: table_A_row)
qed

theorem mode_A_day_exceeds_duties_witness:
  "(\<exists>d c'. mode_A 0 1 [[8], [2]] (\<lambda>n. 0) 0 = Inr (d, c')
      \<and> sum_list (map (\<lambda>row. row ! 0) [[8], [2]]) < sum_list (table_A 1 d ! 0))
   \<and> mode_A 0 1 [[8], [2]] (\<lambda>n. 0) 0 = Inr ([[9], [2]], 1)
   \<and> sum_list (map (\<lambda>row. row ! 0) [[8], [2 :: int]]) = 10
   \<and> sum_list (table_A 1 [[9], [2]] ! 0) = 11"
  using mode_A_day_exceeds_duties [of 1 "[[8], [2]]" 0 0 "\<lambda>n. 0" 0]
  by (simp add: wf_matrix_def mode_A_def scaled_duties_def sumDutiesPerDay_def
      sumRoundedDownDutiesPerDay_def numberRoundUp_def round_one_def table_A_def trunc_def
      Let_def numeral_2_eq_2)

subsection \<open>The value of a base\<close>

text \<open>
  Claim C5. In the first mode the value written for a base and a day is never less than
  the floor of the count of that base and day multiplied by one plus the slack: a round
  sets a value to its truncation plus one, and nothing else changes a value. The slack
  may be any percentage from -100 upward, so that the scaled counts are not negative.
\<close>

theorem mode_A_floor:
  assumes "wf_matrix numDays init" and "init \<noteq> []"
    and "\<forall>row\<in>set init. \<forall>x\<in>set row. 0 \<le> x" and "- 100 \<le> percentSlack"
    and "j < numDays" and "i < length init"
  shows "\<exists>d c'. mode_A percentSlack numDays init rand c = Inr (d, c')
           \<and> \<lfloor>real_of_int (init ! i ! j) * (1 + percentSlack / 100)\<rfloor> \<le> table_A numDays d ! j ! i"
proof -
  from mode_A_rounded [OF assms(1-4), of rand c] assms(5)
  obtain d c' where m: "mode_A percentSlack numDays init rand c = Inr (d, c')"
    and len: "length d = length init"
    and mono: "list_all2 (\<lambda>x y. trunc x \<le> trunc y)
                 (map (\<lambda>row. real_of_int (row ! j) * (1 + percentSlack / 100)) init) (column j d)"
    by blast
  from mono assms(6)
  have le: "trunc (real_of_int (init ! i ! j) * (1 + percentSlack / 100)) \<le> trunc (column j d ! i)"
    by (auto dest: list_all2_nthD)
  have "init ! i \<in> set init" and "init ! i ! j \<in> set (init ! i)"
    using assms(1,5,6) by (simp_all add: wf_matrix_def)
  with assms(3) have "0 \<le> init ! i ! j" by blast
  with assms(4) have "0 \<le> real_of_int (init ! i ! j) * (1 + percentSlack / 100)"
    by simp
  then have "trunc (real_of_int (init ! i ! j) * (1 + percentSlack / 100))
               = \<lfloor>real_of_int (init ! i ! j) * (1 + percentSlack / 100)\<rfloor>"
    by (rule trunc_nonneg)
  with le have "\<lfloor>real_of_int (init ! i ! j) * (1 + percentSlack / 100)\<rfloor> \<le> trunc (column j d ! i)"
    by simp
  moreover have "table_A numDays d ! j ! i = trunc (column j d ! i)"
    using assms(5,6) len by (simp add: table_A_row column_def)
  ultimately show ?thesis using m by auto
qed

theorem mode_A_floor_witness:
  "(\<exists>d c'. mode_A 10 1 [[8], [2]] (\<lambda>n. 0) 0 = Inr (d, c')
      \<and> \<lfloor>real_of_int ([[8], [2]] ! 1 ! 0) * (1 + 10 / 100)\<rfloor> \<le> table_A 1 d ! 0 ! 1)
   \<and> mode_A 10 1 [[8], [2]] (\<lambda>n. 0) 0 = Inr ([[9], [3]], 2)
   \<and> \<lfloor>real_of_int ([[8], [2]] ! 1 ! 0) * (1 + 10 / 100)\<rfloor> = 2
   \<and> table_A 1 [[9], [3]] ! 0 ! 1 = 3"
  using mode_A_floor [of 1 "[[8], [2]]" 10 0 1 "\<lambda>n. 0" 0]
  by (simp add: wf_matrix_def mode_A_def scaled_duties_def sumDutiesPerDay_def
      sumRoundedDownDutiesPerDay_def numberRoundUp_def round_one_def table_A_def trunc_def
      Let_def numeral_2_eq_2)

section \<open>Properties of the second output\<close>

subsection \<open>The scan for the best decimal part\<close>

lemma best_decimal_scan:
  "best_decimal xs k (index, dec) = (i, m) \<Longrightarrow>
     (i = index \<and> m = dec \<and> (\<forall>x\<in>set xs. decimal x < dec))
     \<or> (k \<le> i \<and> i < k + length xs \<and> m = decimal (xs ! (i - k)) \<and> dec \<le> m
         \<and> (\<forall>j<length xs. decimal (xs ! j) \<le> m)
         \<and> (\<forall>j<length xs. i - k < j \<longrightarrow> decimal (xs ! j) < m))"
proof (induction xs arbitrary: k index dec)
  case Nil
  then show ?case by simp
next
  case (Cons x xs)
  show ?case
  proof (cases "decimal x \<ge> dec")
    case True
    with Cons.prems have "best_decimal xs (Suc k) (k, decimal x) = (i, m)"
      by (simp add: decimal_def)
    from Cons.IH [OF this]
    consider (stay) "i = k" "m = decimal x" "\<forall>y\<in>set xs. decimal y < decimal x"
      | (move) "Suc k \<le> i" "i < Suc k + length xs" "m = decimal (xs ! (i - Suc k))"
          "decimal x \<le> m" "\<forall>j<length xs. decimal (xs ! j) \<le> m"
          "\<forall>j<length xs. i - Suc k < j \<longrightarrow> decimal (xs ! j) < m"
      by blast
    then show ?thesis
    proof cases
      case stay
      have "\<forall>j<length (x # xs). decimal ((x # xs) ! j) \<le> m"
        using stay by (auto simp: nth_Cons split: nat.splits intro: less_imp_le)
      moreover have "\<forall>j<length (x # xs). i - k < j \<longrightarrow> decimal ((x # xs) ! j) < m"
        using stay by (auto simp: nth_Cons split: nat.splits)
      ultimately show ?thesis
        using stay True by simp
    next
      case move
      have a: "\<forall>j<length (x # xs). decimal ((x # xs) ! j) \<le> m"
        using move by (auto simp: nth_Cons split: nat.splits)
      have b: "\<forall>j<length (x # xs). i - k < j \<longrightarrow> decimal ((x # xs) ! j) < m"
      proof (intro allI impI)
        fix j assume j: "j < length (x # xs)" "i - k < j"
        then obtain j' where j': "j = Suc j'" by (cases j) auto
        with j move have "j' < length xs" "i - Suc k < j'" by auto
        with move j' show "decimal ((x # xs) ! j) < m" by simp
      qed
      have c: "(x # xs) ! (i - k) = xs ! (i - Suc k)"
        using move by (simp add: nth_Cons split: nat.splits) (metis Suc_diff_Suc Suc_le_lessD nat.inject)
      show ?thesis
        using move True a b c by auto
    qed
  next
    case False
    with Cons.prems have "best_decimal xs (Suc k) (index, dec) = (i, m)"
      by (simp add: decimal_def)
    from Cons.IH [OF this]
    consider (stay) "i = index" "m = dec" "\<forall>y\<in>set xs. decimal y < dec"
      | (move) "Suc k \<le> i" "i < Suc k + length xs" "m = decimal (xs ! (i - Suc k))"
          "dec \<le> m" "\<forall>j<length xs. decimal (xs ! j) \<le> m"
          "\<forall>j<length xs. i - Suc k < j \<longrightarrow> decimal (xs ! j) < m"
      by blast
    then show ?thesis
    proof cases
      case stay
      with False show ?thesis by auto
    next
      case move
      have a: "\<forall>j<length (x # xs). decimal ((x # xs) ! j) \<le> m"
        using move False by (auto simp: nth_Cons split: nat.splits)
      have b: "\<forall>j<length (x # xs). i - k < j \<longrightarrow> decimal ((x # xs) ! j) < m"
      proof (intro allI impI)
        fix j assume j: "j < length (x # xs)" "i - k < j"
        then obtain j' where j': "j = Suc j'" by (cases j) auto
        with j move have "j' < length xs" "i - Suc k < j'" by auto
        with move j' show "decimal ((x # xs) ! j) < m" by simp
      qed
      have c: "(x # xs) ! (i - k) = xs ! (i - Suc k)"
        using move by (simp add: nth_Cons split: nat.splits) (metis Suc_diff_Suc Suc_le_lessD nat.inject)
      show ?thesis
        using move a b c by auto
    qed
  qed
qed

lemma decimal_nonneg': "0 \<le> a \<Longrightarrow> 0 \<le> decimal a"
  by (simp add: decimal_def trunc_def)

text \<open>
  Two bases and two days, no slack, 50 percent for the main base: the periods have 3 and
  2 duties, the sum of the averages is 2.5 and both bases get the target 1.25. One
  average is rounded up. The scan replaces its candidate whenever the decimal part is
  at least the best one so far, so it ends on the second base: the result is 1 and 2,
  not 2 and 1.
\<close>

theorem round_best_counterexample:
  "distribute (5 / 2) 50 2 0 = Inr [5 / 4, 5 / 4]
   \<and> fst (best_decimal [5 / 4, 5 / 4] 0 (0, 0)) = 1
   \<and> mode_B 0 50 2 [[2, 1], [1, 1]] = Inr [1, 2]"
  by (simp add: mode_B_def period_sum_def sum_averages_def distribute_def target_average_def
      round_best_def trunc_def Let_def upt_rec)

text \<open>
  Claim C2, amended. One round of the second mode takes no random value. On averages that
  are not negative it rounds up the base \<open>i\<close> whose decimal part is the largest, and
  among the bases with that largest decimal part the last one in the order of the bases:
  every later base has a strictly smaller decimal part. The comparison of line 483 is
  not strict, which is why a later base with an equal decimal part replaces an earlier
  one. The averages stay non-negative, so the same holds for every round of the loop.
\<close>

theorem round_best_last:
  assumes "averages \<noteq> []" and "\<forall>a\<in>set averages. 0 \<le> a"
  shows "\<exists>i<length averages.
           round_best averages = Inr (averages[i := real_of_int (trunc (averages ! i) + 1)])
           \<and> (\<forall>j<length averages. decimal (averages ! j) \<le> decimal (averages ! i))
           \<and> (\<forall>j<length averages. i < j \<longrightarrow> decimal (averages ! j) < decimal (averages ! i))
           \<and> (\<forall>a\<in>set (averages[i := real_of_int (trunc (averages ! i) + 1)]). 0 \<le> a)"
proof -
  obtain i m where scan: "best_decimal averages 0 (0, 0) = (i, m)"
    by (cases "best_decimal averages 0 (0, 0)")
  have "hd averages \<in> set averages"
    using assms(1) by simp
  then have "0 \<le> decimal (hd averages)"
    using assms(2) by (intro decimal_nonneg') blast
  then have "\<not> (\<forall>x\<in>set averages. decimal x < 0)"
    using \<open>hd averages \<in> set averages\<close> by (auto simp: not_less)
  with best_decimal_scan [OF scan]
  have i: "i < length averages" and m: "m = decimal (averages ! i)"
    and mx: "\<forall>j<length averages. decimal (averages ! j) \<le> m"
    and last: "\<forall>j<length averages. i < j \<longrightarrow> decimal (averages ! j) < m"
    by auto
  have rb: "round_best averages = Inr (averages[i := real_of_int (trunc (averages ! i) + 1)])"
    using scan i by (simp add: round_best_def)
  have "0 \<le> averages ! i"
    using assms(2) i by simp
  then have "0 \<le> real_of_int (trunc (averages ! i) + 1)"
    by (simp add: trunc_def)
  then have nn: "\<forall>a\<in>set (averages[i := real_of_int (trunc (averages ! i) + 1)]). 0 \<le> a"
    using assms(2) set_update_subset_insert [of averages i] by fastforce
  from i rb mx last nn show ?thesis
    unfolding m by blast
qed

theorem round_best_last_witness:
  "(\<exists>i<length [5 / 4, 5 / 4 :: real].
     round_best [5 / 4, 5 / 4] = Inr ([5 / 4, 5 / 4][i := real_of_int (trunc ([5 / 4, 5 / 4] ! i) + 1)])
     \<and> (\<forall>j<length [5 / 4, 5 / 4 :: real]. decimal ([5 / 4, 5 / 4] ! j) \<le> decimal ([5 / 4, 5 / 4] ! i))
     \<and> (\<forall>j<length [5 / 4, 5 / 4 :: real]. i < j \<longrightarrow> decimal ([5 / 4, 5 / 4] ! j) < decimal ([5 / 4, 5 / 4] ! i))
     \<and> (\<forall>a\<in>set ([5 / 4, 5 / 4][i := real_of_int (trunc ([5 / 4, 5 / 4] ! i) + 1)]). 0 \<le> a))
   \<and> round_best [5 / 4, 5 / 4] = Inr [5 / 4, 2]"
  using round_best_last [of "[5 / 4, 5 / 4]"] by (simp add: round_best_def trunc_def)

subsection \<open>The table\<close>

lemma collect_length: "collect rs = Inr xs \<Longrightarrow> length xs = length rs"
proof (induction rs arbitrary: xs)
  case Nil
  then show ?case by simp
next
  case (Cons r rs)
  then show ?case
    by (cases r) (auto split: sum.splits)
qed

lemma distribute_length:
  "distribute sumAverages percentMainBase nb mainBaseIndex = Inr averages \<Longrightarrow> length averages = nb"
  by (auto simp: distribute_def dest: collect_length)

lemma round_best_length: "round_best averages = Inr averages' \<Longrightarrow> length averages' = length averages"
  by (auto simp: round_best_def Let_def split: if_splits)

lemma round_up_best_length:
  "round_up_best n averages = Inr averages' \<Longrightarrow> length averages' = length averages"
proof (induction n arbitrary: averages)
  case 0
  then show ?case by simp
next
  case (Suc n)
  then show ?case
    by (auto split: sum.splits dest: round_best_length)
qed

lemma mode_B_integers:
  assumes "mode_B percentSlack percentMainBase numDays init = Inr averages"
  shows "length averages = length init \<and> (\<forall>b<length init. \<exists>n. averages ! b = real_of_int n)"
proof -
  from assms obtain S targets averages' where
    d: "distribute S percentMainBase (length init)
          (fst (main_base (map (period_sum numDays) init) 0 (- 1, 0))) = Inr targets"
    and r: "round_up_best (nat (trunc (S + 1) - sum_list (map trunc targets))) targets = Inr averages'"
    and a: "averages = map (\<lambda>a. real_of_int (trunc a)) averages'"
    by (auto simp: mode_B_def Let_def split: sum.splits)
  have "length averages' = length init"
    using round_up_best_length [OF r] distribute_length [OF d] by simp
  then show ?thesis
    by (auto simp: a)
qed

text \<open>
  Claim C6. The second mode keeps one value per base, an integer, and the table shows
  that value of base \<open>b\<close> in the row of every day: the rows of any two days agree.
\<close>

theorem table_B_flat:
  assumes "mode_B percentSlack percentMainBase numDays init = Inr averages"
    and "d1 < numDays" and "d2 < numDays" and "b < length init"
  shows "table_B numDays (length init) averages ! d1 ! b
           = table_B numDays (length init) averages ! d2 ! b
         \<and> table_B numDays (length init) averages ! d1 ! b = averages ! b
         \<and> (\<exists>n. averages ! b = real_of_int n)"
  using assms mode_B_integers [OF assms(1)] by (simp add: table_B_def)

theorem table_B_flat_witness:
  "mode_B 0 75 2 [[10, 0], [0, 0]] = Inr [4, 2]
   \<and> table_B 2 (length [[10, 0], [0, 0 :: int]]) [4, 2] ! 0 ! 1
       = table_B 2 (length [[10, 0], [0, 0 :: int]]) [4, 2] ! 1 ! 1
   \<and> table_B 2 (length [[10, 0], [0, 0 :: int]]) [4, 2] ! 0 ! 1 = [4, 2] ! 1
   \<and> (\<exists>n. [4, 2 :: real] ! 1 = real_of_int n)"
  using table_B_flat [of 0 75 2 "[[10, 0], [0, 0]]" "[4, 2]" 0 1 1]
  by (simp add: mode_B_def period_sum_def sum_averages_def distribute_def target_average_def
      round_best_def trunc_def Let_def upt_rec numeral_2_eq_2)

subsection \<open>No main base\<close>

lemma main_base_none:
  "\<forall>s\<in>set periodSums. s \<le> avail \<Longrightarrow> main_base periodSums i (index, avail) = (index, avail)"
  by (induction periodSums arbitrary: i) auto

lemma collect_map_Inr: "collect (map (\<lambda>i. Inr (f i)) is) = Inr (map f is)"
  by (induction "is") auto

text \<open>
  Claim C10. When the duties of every base add up to 0 over the period, no sum exceeds
  the initial availability 0 of line 434 and the index of the main base stays -1. Every
  base then takes the branch of line 456 and receives the share of the sum of the
  averages left to the other bases, divided by the number of bases minus one; no base
  receives the percentage of the main base. (With exactly one base that divisor is 0.)
\<close>

theorem no_main_base:
  assumes "\<forall>row\<in>set init. period_sum numDays row = 0" and "length init \<noteq> 1"
  shows "fst (main_base (map (period_sum numDays) init) 0 (-1, 0)) = -1
         \<and> distribute sumAverages percentMainBase (length init)
             (fst (main_base (map (period_sum numDays) init) 0 (-1, 0)))
           = Inr (replicate (length init)
                   (sumAverages * (1 - percentMainBase / 100) / real (length init - 1)))"
proof -
  have "\<forall>s\<in>set (map (period_sum numDays) init). s \<le> 0"
    using assms(1) by simp
  then have mb: "main_base (map (period_sum numDays) init) 0 (-1, 0) = (-1, 0)"
    by (rule main_base_none)
  have "map (target_average sumAverages percentMainBase (length init) (-1)) [0..<length init]
          = map (\<lambda>i. Inr (sumAverages * (1 - percentMainBase / 100) / real (length init - 1)))
              [0..<length init]"
    using assms(2) by (simp add: target_average_def)
  then have "distribute sumAverages percentMainBase (length init) (-1)
          = Inr (map (\<lambda>i. sumAverages * (1 - percentMainBase / 100) / real (length init - 1))
              [0..<length init])"
    unfolding distribute_def by (simp only: collect_map_Inr)
  then show ?thesis
    by (simp add: mb map_replicate_const)
qed

theorem no_main_base_witness:
  "fst (main_base (map (period_sum 2) [[0, 0], [0, 0], [0, 0]]) 0 (-1, 0)) = -1
   \<and> distribute 0 80 (length [[0, 0], [0, 0], [0::int, 0]])
        (fst (main_base (map (period_sum 2) [[0, 0], [0, 0], [0, 0]]) 0 (-1, 0)))
      = Inr [0, 0, 0]
   \<and> mode_B 10 80 2 [[0, 0], [0, 0], [0, 0]] = Inr [0, 0, 1]"
  using no_main_base [of "[[0, 0], [0, 0], [0, 0]]" 2 0 80]
  by (simp add: period_sum_def mode_B_def sum_averages_def distribute_def target_average_def
      round_best_def trunc_def Let_def upt_rec numeral_3_eq_3)

section \<open>Properties of the loop over the instances\<close>

subsection \<open>The matrix of an instance\<close>

lemma counts_ok_zero: "counts_ok nb numDays (replicate nb (replicate numDays 0))"
  by (auto simp: counts_ok_def wf_matrix_def)

lemma counts_ok_add_duty:
  assumes "counts_ok nb numDays m" and "add_duty m b d = Inr m'"
  shows "counts_ok nb numDays m'"
proof -
  from assms(2) have b: "b < length m" and k: "nat (d - 1) < length (m ! b)"
    and m': "m' = m[b := (m ! b)[nat (d - 1) := m ! b ! nat (d - 1) + 1]]"
    by (auto simp: add_duty_def split: if_splits)
  let ?row = "(m ! b)[nat (d - 1) := m ! b ! nat (d - 1) + 1]"
  have mb: "m ! b \<in> set m" using b by simp
  have len: "length ?row = numDays"
    using assms(1) mb by (simp add: counts_ok_def wf_matrix_def)
  have "0 \<le> m ! b ! nat (d - 1)"
    using assms(1) mb k by (auto simp: counts_ok_def)
  then have nn: "\<forall>x\<in>set ?row. 0 \<le> x"
    using assms(1) mb set_update_subset_insert [of "m ! b" "nat (d - 1)"]
    by (fastforce simp: counts_ok_def)
  have "\<forall>row\<in>set m'. length row = numDays \<and> (\<forall>x\<in>set row. 0 \<le> x)"
  proof
    fix row assume "row \<in> set m'"
    then have "row = ?row \<or> row \<in> set m"
      unfolding m' using set_update_subset_insert [of m b] by fastforce
    with len nn assms(1) show "length row = numDays \<and> (\<forall>x\<in>set row. 0 \<le> x)"
      by (auto simp: counts_ok_def wf_matrix_def)
  qed
  moreover have "length m' = nb"
    using assms(1) by (simp add: m' counts_ok_def)
  ultimately show ?thesis
    by (simp add: counts_ok_def wf_matrix_def)
qed

lemma counts_ok_step_task:
  "counts_ok nb numDays (snd st) \<Longrightarrow> step_task b t st = Inr st' \<Longrightarrow> counts_ok nb numDays (snd st')"
  by (auto simp: step_task_def split: sum.splits option.splits if_splits
      dest: counts_ok_add_duty)

lemma counts_ok_count_duties:
  "counts_ok nb numDays (snd st) \<Longrightarrow> count_duties b schedule st = Inr st' \<Longrightarrow>
     counts_ok nb numDays (snd st')"
proof (induction b schedule st arbitrary: st' rule: count_duties.induct)
  case (1 b schedule st)
  show ?case
  proof (cases "find_first CHR ''-'' schedule")
    case None
    with "1.prems"(2) have "step_task b (take (length schedule - 1) schedule) st = Inr st'"
      by (subst (asm) count_duties.simps) simp
    with "1.prems"(1) show ?thesis by (rule counts_ok_step_task)
  next
    case (Some pos)
    with "1.prems"(2) have ok: "\<not> length schedule < pos + 4"
      by (subst (asm) count_duties.simps) (auto split: if_splits)
    with Some "1.prems"(2) obtain st1 where s1: "step_task b (take pos schedule) st = Inr st1"
      and rest: "count_duties b (drop (pos + 4) schedule) st1 = Inr st'"
      by (subst (asm) count_duties.simps) (auto split: sum.splits)
    have "counts_ok nb numDays (snd st1)"
      using "1.prems"(1) s1 by (rule counts_ok_step_task)
    from "1.IH" [OF Some ok s1 this rest] show ?thesis .
  qed
qed

lemma counts_ok_read_employee:
  "counts_ok nb numDays m \<Longrightarrow> read_employee baseNames e m = Inr m' \<Longrightarrow> counts_ok nb numDays m'"
  by (auto simp: read_employee_def Let_def split: sum.splits if_splits
      dest: counts_ok_count_duties [where st = "(0, m)", simplified])

lemma counts_ok_read_solution:
  "counts_ok nb numDays m \<Longrightarrow> read_solution baseNames es m = Inr m' \<Longrightarrow> counts_ok nb numDays m'"
proof (induction es arbitrary: m)
  case Nil
  then show ?case by simp
next
  case (Cons e es)
  then show ?case
    by (auto split: sum.splits dest: counts_ok_read_employee)
qed

text \<open>
  The matrix that the program builds for an instance (lines 125 to 242) has the shape
  and the sign that the properties of the two outputs assume.
\<close>

theorem read_solution_matrix:
  assumes "read_solution baseNames es (replicate (length baseNames) (replicate numDays 0)) = Inr init"
  shows "length init = length baseNames \<and> wf_matrix numDays init
         \<and> (\<forall>row\<in>set init. \<forall>x\<in>set row. 0 \<le> x)"
  using counts_ok_read_solution [OF counts_ok_zero assms] by (simp add: counts_ok_def)

theorem read_solution_matrix_witness:
  "length [[2, 0], [0, 1 :: int]] = length [''BASE1'', ''BASE2'']
   \<and> wf_matrix 2 [[2, 0], [0, 1 :: int]]
   \<and> read_solution [''BASE1'', ''BASE2'']
        [(''(BASE1)'', '' LEG_01_00960_0--->LEG_01_2;''), (''(BASE2)'', '' PAL_LEG_02_1;''),
         (''(BASE1)'', '' TDH_01_1--->LEG_01_7;''), (''(ADMIN)'', '' LEG_02_7;'')]
        (replicate (length [''BASE1'', ''BASE2'']) (replicate 2 0))
      = Inr [[2, 0], [0, 1]]"
  using read_solution_matrix [of "[''BASE1'', ''BASE2'']"
      "[(''(BASE1)'', '' LEG_01_00960_0--->LEG_01_2;''), (''(BASE2)'', '' PAL_LEG_02_1;''),
        (''(BASE1)'', '' TDH_01_1--->LEG_01_7;''), (''(ADMIN)'', '' LEG_02_7;'')]"
      2 "[[2, 0], [0, 1]]"]
  by (simp add: read_employee_def substr_def substr_from_def count_duties.simps step_task_def
      task_day_def extract_int_def isspace_def isdigit_def add_duty_def numeral_2_eq_2)


subsection \<open>A missing list of bases\<close>

lemma stuck_never_returns:
  assumes "main_loop percentSlack percentMainBase rand instances st = Some r"
  shows "\<not> (instanceNb st < length instances \<and> bases_file (instances ! instanceNb st) = None)"
proof (rule main_loop.raw_induct
    [where P = "\<lambda>ps pm rnd insts s res.
        \<not> (instanceNb s < length insts \<and> bases_file (insts ! instanceNb s) = None)",
      OF _ assms])
  fix f ps pm rnd insts s res
  assume IH: "\<And>ps pm rnd insts s res. f ps pm rnd insts s = Some res \<Longrightarrow>
      \<not> (instanceNb s < length insts \<and> bases_file (insts ! instanceNb s) = None)"
    and run: "(if instanceNb s < length insts
        then case loop_body ps pm rnd insts s of
             Inl e \<Rightarrow> Some (Inl e)
           | Inr st' \<Rightarrow> f ps pm rnd insts st'
        else Some (Inr s)) = Some res"
  show "\<not> (instanceNb s < length insts \<and> bases_file (insts ! instanceNb s) = None)"
  proof
    assume stuck: "instanceNb s < length insts \<and> bases_file (insts ! instanceNb s) = None"
    define s' where "s' = s\<lparr>cout := cout s @ [''Error : listOfBases.csv file not found in instance ''
                    @ inst_name (insts ! instanceNb s)]\<rparr>"
    have "loop_body ps pm rnd insts s = Inr s'"
      using stuck by (simp add: loop_body_def s'_def)
    with run stuck have "f ps pm rnd insts s' = Some res"
      by simp
    from IH [OF this] have "\<not> (instanceNb s' < length insts
        \<and> bases_file (insts ! instanceNb s') = None)" .
    moreover have "instanceNb s' = instanceNb s"
      by (simp add: s'_def)
    ultimately show False using stuck by simp
  qed
qed

lemma missing_registry_loops:
  assumes "instanceNb st < length instances" and "bases_file (instances ! instanceNb st) = None"
  shows "main_loop percentSlack percentMainBase rand instances st = None"
proof (cases "main_loop percentSlack percentMainBase rand instances st")
  case None
  then show ?thesis .
next
  case (Some r)
  from stuck_never_returns [OF this] assms show ?thesis by simp
qed

text \<open>
  Claim C9: a missing \<^verbatim>\<open>listOfBases.csv\<close> is reported and ends the whole batch. The
  program reports it and does not end: with two instances of which the first has no
  list of bases, one turn of the loop prints the error and leaves the counter at 0, so
  the next turn meets the same instance again, and the loop never returns. No later
  instance is processed, and the program does not stop either.
\<close>

theorem missing_registry_never_ends:
  "loop_body 10 (- 1) (\<lambda>n. 0)
     [\<lparr>inst_name = ''I1'', bases_file = None, day_files = 1,
        solution_file = Some [(''(BASE1)'', '' LEG_01_00960_0;'')], output_opens = True\<rparr>,
      \<lparr>inst_name = ''I2'', bases_file = Some [''BASE1''], day_files = 1,
        solution_file = Some [(''(BASE1)'', '' LEG_01_00960_0;'')], output_opens = True\<rparr>]
     \<lparr>instanceNb = 0, cout = [], written = [], randCalls = 0\<rparr>
   = Inr \<lparr>instanceNb = 0, cout = [''Error : listOfBases.csv file not found in instance I1''],
        written = [], randCalls = 0\<rparr>
   \<and> main_loop 10 (- 1) (\<lambda>n. 0)
     [\<lparr>inst_name = ''I1'', bases_file = None, day_files = 1,
        solution_file = Some [(''(BASE1)'', '' LEG_01_00960_0;'')], output_opens = True\<rparr>,
      \<lparr>inst_name = ''I2'', bases_file = Some [''BASE1''], day_files = 1,
        solution_file = Some [(''(BASE1)'', '' LEG_01_00960_0;'')], output_opens = True\<rparr>]
     \<lparr>instanceNb = 0, cout = [], written = [], randCalls = 0\<rparr>
   = None"
  by (simp add: loop_body_def missing_registry_loops)

subsection \<open>An instance with one base\<close>

lemma round_up_best_single: "\<exists>y. round_up_best n [x] = Inr [y]"
proof (induction n arbitrary: x)
  case 0
  then show ?case by simp
next
  case (Suc n)
  have "round_best [x] = Inr [real_of_int (trunc x + 1)]"
    by (simp add: round_best_def)
  with Suc [of "real_of_int (trunc x + 1)"] show ?case by simp
qed

lemma mode_B_single:
  assumes "0 < period_sum numDays row"
  shows "\<exists>S n. sum_averages percentSlack numDays [period_sum numDays row] = Inr S
           \<and> distribute S percentMainBase (Suc 0) 0 = Inr [S * percentMainBase / 100]
           \<and> mode_B percentSlack percentMainBase numDays [row] = Inr [real_of_int n]"
proof -
  have days: "numDays \<noteq> 0"
    using assms by (cases numDays) (simp_all add: period_sum_def)
  have mb: "main_base [period_sum numDays row] 0 (- 1, 0) = (0, period_sum numDays row)"
    using assms by simp
  define S where "S = 1 * real_of_int (period_sum numDays row) / real numDays * (1 + percentSlack / 100)"
  have sa: "sum_averages percentSlack numDays [period_sum numDays row] = Inr S"
    using days by (simp add: sum_averages_def S_def)
  have di: "distribute S percentMainBase (Suc 0) 0 = Inr [S * percentMainBase / 100]"
    by (simp add: distribute_def target_average_def)
  obtain y where "round_up_best (nat (trunc (S + 1) - sum_list (map trunc [S * percentMainBase / 100])))
      [S * percentMainBase / 100] = Inr [y]"
    using round_up_best_single by blast
  then have "mode_B percentSlack percentMainBase numDays [row] = Inr [real_of_int (trunc y)]"
    using assms by (simp add: mode_B_def Let_def sa di)
  with sa di show ?thesis by blast
qed

text \<open>
  One base, one day, one employee with one airleg, no slack and 100 percent for the main
  base. The sum of the averages is 1, the base is the main base and its share is 1; the
  sum plus one is 2, so the share is rounded up to 2. The turn of the loop prints
  nothing, writes the table with the value 2 and goes on to the next instance: the
  instance is neither reported nor skipped.
\<close>

theorem single_base_counterexample:
  "loop_body 0 100 (\<lambda>n. 0)
     [\<lparr>inst_name = ''I1'', bases_file = Some [''BASE1''], day_files = 1,
        solution_file = Some [(''(BASE1)'', '' LEG_01_00960_0;'')], output_opens = True\<rparr>]
     \<lparr>instanceNb = 0, cout = [], written = [], randCalls = 0\<rparr>
   = Inr \<lparr>instanceNb = 1, cout = [],
        written = [(''I1/crew_avail_const.csv'', Table [''BASE1''] [[2]])], randCalls = 0\<rparr>"
  by (simp add: loop_body_def generate_def read_employee_def substr_def substr_from_def
      count_duties.simps step_task_def task_day_def extract_int_def isspace_def isdigit_def
      add_duty_def mode_B_def period_sum_def sum_averages_def distribute_def target_average_def
      round_best_def table_B_def trunc_def Let_def)

text \<open>
  Claim C8, amended. When the second output is chosen for an instance with exactly one
  base and that base has at least one duty in the period, the instance is not rejected.
  The base is the main base (index 0); with \<open>S\<close> the sum of the averages with slack, its
  share is \<open>S * percentMainBase / 100\<close>, the branch of line 453, and the division of line
  456 by the number of bases minus one is not evaluated; the second mode returns one
  whole number; nothing is printed, the table is written with that number on every day,
  and the loop goes on to the next instance.
\<close>

theorem single_base_not_rejected:
  assumes "instanceNb st < length instances"
    and "bases_file (instances ! instanceNb st) = Some [b]"
    and "solution_file (instances ! instanceNb st) = Some employees"
    and "read_solution [b] employees [replicate (day_files (instances ! instanceNb st)) 0] = Inr init"
    and "0 < period_sum (day_files (instances ! instanceNb st)) (hd init)"
    and "percentMainBase \<noteq> - 1"
    and "output_opens (instances ! instanceNb st)"
  shows "\<exists>S n.
           fst (main_base (map (period_sum (day_files (instances ! instanceNb st))) init) 0 (- 1, 0)) = 0
         \<and> sum_averages percentSlack (day_files (instances ! instanceNb st))
               (map (period_sum (day_files (instances ! instanceNb st))) init) = Inr S
         \<and> distribute S percentMainBase (length init)
               (fst (main_base (map (period_sum (day_files (instances ! instanceNb st))) init) 0 (- 1, 0)))
             = Inr [S * percentMainBase / 100]
         \<and> mode_B percentSlack percentMainBase (day_files (instances ! instanceNb st)) init
             = Inr [real_of_int n]
         \<and> loop_body percentSlack percentMainBase rand instances st =
             Inr (st\<lparr>written := written st @
                    [(inst_name (instances ! instanceNb st) @ ''/crew_avail_const.csv'',
                      Table [b] (replicate (day_files (instances ! instanceNb st)) [real_of_int n]))],
                  instanceNb := instanceNb st + 1\<rparr>)"
proof -
  let ?inst = "instances ! instanceNb st"
  have "counts_ok 1 (day_files ?inst) [replicate (day_files ?inst) 0]"
    using counts_ok_zero [of 1 "day_files ?inst"] by simp
  from counts_ok_read_solution [OF this assms(4)] have "length init = 1"
    by (simp add: counts_ok_def)
  then obtain row where init: "init = [row]"
    by (cases init) auto
  with assms(5) have pos: "0 < period_sum (day_files ?inst) row" by simp
  from mode_B_single [OF pos, of percentSlack percentMainBase]
  obtain S n where sa: "sum_averages percentSlack (day_files ?inst) [period_sum (day_files ?inst) row] = Inr S"
    and di: "distribute S percentMainBase (Suc 0) 0 = Inr [S * percentMainBase / 100]"
    and a: "mode_B percentSlack percentMainBase (day_files ?inst) [row] = Inr [real_of_int n]"
    by blast
  have mb: "fst (main_base (map (period_sum (day_files ?inst)) [row]) 0 (- 1, 0)) = 0"
    using pos by simp
  have tb: "table_B (day_files ?inst) 1 [real_of_int n] = replicate (day_files ?inst) [real_of_int n]"
    by (simp add: table_B_def map_replicate_const)
  have "generate percentSlack percentMainBase rand ?inst [b] st =
          Inr (st\<lparr>written := written st @
                 [(inst_name ?inst @ ''/crew_avail_const.csv'',
                   Table [b] (replicate (day_files ?inst) [real_of_int n]))]\<rparr>)"
    using assms(3,4,6,7) a tb by (simp add: generate_def init)
  then have lb: "loop_body percentSlack percentMainBase rand instances st =
               Inr (st\<lparr>written := written st @
                      [(inst_name ?inst @ ''/crew_avail_const.csv'',
                        Table [b] (replicate (day_files ?inst) [real_of_int n]))],
                    instanceNb := instanceNb st + 1\<rparr>)"
    using assms(2) by (simp add: loop_body_def Let_def)
  have di': "distribute S percentMainBase (length [row])
               (fst (main_base (map (period_sum (day_files ?inst)) [row]) 0 (- 1, 0)))
             = Inr [S * percentMainBase / 100]"
    using di by (simp only: mb list.size) simp
  have sa': "sum_averages percentSlack (day_files ?inst) (map (period_sum (day_files ?inst)) [row]) = Inr S"
    using sa by simp
  from mb sa' di' a lb show ?thesis
    unfolding init by blast
qed

theorem single_base_not_rejected_witness:
  "\<exists>S n. fst (main_base (map (period_sum 1) [[1]]) 0 (- 1, 0)) = 0
     \<and> sum_averages 0 1 (map (period_sum 1) [[1]]) = Inr S
     \<and> distribute S 100 (length [[1 :: int]]) (fst (main_base (map (period_sum 1) [[1]]) 0 (- 1, 0)))
         = Inr [S * 100 / 100]
     \<and> mode_B 0 100 1 [[1]] = Inr [real_of_int n]
     \<and> loop_body 0 100 (\<lambda>n. 0)
         [\<lparr>inst_name = ''I1'', bases_file = Some [''BASE1''], day_files = 1,
            solution_file = Some [(''(BASE1)'', '' LEG_01_00960_0;'')], output_opens = True\<rparr>]
         \<lparr>instanceNb = 0, cout = [], written = [], randCalls = 0\<rparr>
       = Inr \<lparr>instanceNb = 1, cout = [],
            written = [(''I1/crew_avail_const.csv'', Table [''BASE1''] [[real_of_int n]])],
            randCalls = 0\<rparr>"
  using single_base_not_rejected [of
      "\<lparr>instanceNb = 0, cout = [], written = [], randCalls = 0\<rparr>"
      "[\<lparr>inst_name = ''I1'', bases_file = Some [''BASE1''], day_files = 1,
            solution_file = Some [(''(BASE1)'', '' LEG_01_00960_0;'')], output_opens = True\<rparr>]"
      "''BASE1''" "[(''(BASE1)'', '' LEG_01_00960_0;'')]" "[[1]]" 100 0 "\<lambda>n. 0"]
  by (simp add: read_employee_def substr_def substr_from_def
      count_duties.simps step_task_def task_day_def extract_int_def isspace_def isdigit_def
      add_duty_def period_sum_def)

end
